theory Spec2Isabelle
  imports Main "HOL-Library.Word"
begin

section \<open>BufferMgmt: packet buffers, buffer pools and the pool manager\<close>

text \<open>
  A shallow embedding of \<^verbatim>\<open>src/packet_buffer.cpp\<close>, \<^verbatim>\<open>src/buffer_metadata.cpp\<close> and
  \<^verbatim>\<open>src/pool_manager.cpp\<close>. Every member function becomes a function that takes the
  object and returns the updated object together with the returned value. A returned
  \<^verbatim>\<open>nullptr\<close> is \<open>None\<close>. The mutex of the manager and the memory orders of the
  reference counter are not modelled: the development is about single calls run to
  completion. Writes to \<^verbatim>\<open>std::cout\<close> and \<^verbatim>\<open>std::cerr\<close> are diagnostics and are left out.
\<close>

subsection \<open>Machine types\<close>

text \<open>
  \<^verbatim>\<open>size_t\<close> is a 64-bit unsigned word whose arithmetic wraps around. An
  \<^verbatim>\<open>unsigned char*\<close> is the 64-bit address it holds: pointer plus offset is word
  addition, and the difference of two pointers converted to \<^verbatim>\<open>size_t\<close> is word
  subtraction. The reference counter is a \<^verbatim>\<open>std::atomic<int>\<close>, a 32-bit word read as
  two's complement. A NUMA node number is an \<^verbatim>\<open>int\<close> that is only stored and compared.
\<close>

type_synonym size_t = "64 word"
type_synonym addr = "64 word"

text \<open>
  A \<^verbatim>\<open>PacketBufferPool*\<close> is modelled by the place the pool object lives in: the key
  (NUMA node, payload size) of the manager's slot that owns it through a
  \<^verbatim>\<open>unique_ptr\<close>.
\<close>

type_synonym pool_ptr = "int \<times> size_t"

subsection \<open>BufferMetadata (include/buffer_metadata.hpp, src/buffer_metadata.cpp)\<close>

datatype BufferState = Free | Allocated | InUse | Released

record BufferMetadata =
  ingress_port :: "16 word"
  vlan_id :: "16 word"
  rx_timestamp :: nat
  custom_metadata_ptr :: "addr option"
  current_state :: BufferState

text \<open>The constructor reads the system clock; the reading is the argument \<open>now\<close>.\<close>

definition BufferMetadata_ctor :: "nat \<Rightarrow> BufferMetadata" where
  "BufferMetadata_ctor now =
     \<lparr>ingress_port = 0, vlan_id = 0, rx_timestamp = now,
      custom_metadata_ptr = None, current_state = Free\<rparr>"

definition get_state :: "BufferMetadata \<Rightarrow> BufferState" where
  "get_state md = current_state md"

definition set_state :: "BufferState \<Rightarrow> BufferMetadata \<Rightarrow> BufferMetadata" where
  "set_state state md = md\<lparr>current_state := state\<rparr>"

subsection \<open>PacketBuffer (include/packet_buffer.hpp, src/packet_buffer.cpp)\<close>

text \<open>
  The fields are the private members of the class, without the trailing underscore.
  \<open>next_ptr\<close> is the member \<^verbatim>\<open>next_\<close>, a pointer to another buffer. The metadata record
  a buffer points to is co-located with the buffer and belongs to it alone, so the field
  \<open>metadata\<close> holds the record itself, and \<open>None\<close> for a null pointer.
\<close>

record PacketBuffer =
  buffer_start :: addr
  total_allocated_size :: size_t
  data_ptr :: addr
  data_len :: size_t
  headroom :: size_t
  tailroom :: size_t
  ref_count :: "32 word"
  next_ptr :: "addr option"
  metadata :: "BufferMetadata option"
  numa_node :: int
  owning_pool :: "pool_ptr option"

definition PacketBuffer_ctor ::
  "pool_ptr option \<Rightarrow> addr \<Rightarrow> size_t \<Rightarrow> addr \<Rightarrow> size_t \<Rightarrow> size_t \<Rightarrow> size_t \<Rightarrow>
   BufferMetadata option \<Rightarrow> int \<Rightarrow> PacketBuffer" where
  "PacketBuffer_ctor pool buffer_block_start_param total_block_size_param
     data_area_start_ptr data_payload_capacity_val configured_headroom
     configured_tailroom metadata_ptr_param numa_node_val =
     \<lparr>buffer_start = data_area_start_ptr,
      total_allocated_size =
        configured_headroom + data_payload_capacity_val + configured_tailroom,
      data_ptr = data_area_start_ptr + configured_headroom,
      data_len = 0,
      headroom = configured_headroom,
      tailroom = configured_tailroom,
      ref_count = 0,
      next_ptr = None,
      metadata = metadata_ptr_param,
      numa_node = numa_node_val,
      owning_pool = pool\<rparr>"

definition add_ref :: "PacketBuffer \<Rightarrow> PacketBuffer" where
  "add_ref b = b\<lparr>ref_count := ref_count b + 1\<rparr>"

text \<open>
  \<^verbatim>\<open>release\<close> calls \<^verbatim>\<open>owning_pool_->deallocate_buffer(this)\<close>. The call leaves the
  buffer's translation unit, so it is returned as an event: the pool that is called and
  the buffer as it is handed over.
\<close>

datatype pool_call = Deallocate_buffer pool_ptr PacketBuffer

definition release :: "PacketBuffer \<Rightarrow> PacketBuffer \<times> pool_call option" where
  "release b =
     (let b1 = b\<lparr>ref_count := ref_count b - 1\<rparr> in
      if ref_count b = 1 then
        (case owning_pool b1 of
           Some pool \<Rightarrow>
             (let b2 = b1\<lparr>data_ptr := buffer_start b1 + headroom b1,
                          data_len := 0,
                          next_ptr := None\<rparr>;
                  b3 = (case metadata b2 of
                          Some md \<Rightarrow> b2\<lparr>metadata := Some (set_state Released md)\<rparr>
                        | None \<Rightarrow> b2)
              in (b3, Some (Deallocate_buffer pool b3)))
         | None \<Rightarrow> (b1, None))
      else (b1, None))"

definition ref_count_value :: "PacketBuffer \<Rightarrow> int" where
  "ref_count_value b = sint (ref_count b)"

definition data :: "PacketBuffer \<Rightarrow> addr" where
  "data b = data_ptr b"

definition capacity :: "PacketBuffer \<Rightarrow> size_t" where
  "capacity b = total_allocated_size b - headroom b - tailroom b"

definition set_data_len :: "PacketBuffer \<Rightarrow> size_t \<Rightarrow> PacketBuffer" where
  "set_data_len b len =
     (if len > (buffer_start b + total_allocated_size b) - data_ptr b
      then b\<lparr>data_len := (buffer_start b + total_allocated_size b) - data_ptr b\<rparr>
      else b\<lparr>data_len := len\<rparr>)"

definition headroom_size :: "PacketBuffer \<Rightarrow> size_t" where
  "headroom_size b = headroom b"

definition tailroom_size :: "PacketBuffer \<Rightarrow> size_t" where
  "tailroom_size b = tailroom b"

definition reserve_headroom :: "PacketBuffer \<Rightarrow> size_t \<Rightarrow> addr option \<times> PacketBuffer" where
  "reserve_headroom b len =
     (let current_dynamic_headroom = data_ptr b - buffer_start b in
      if len > current_dynamic_headroom then (None, b)
      else
        (let b1 = b\<lparr>data_ptr := data_ptr b - len\<rparr>;
             b2 = b1\<lparr>data_len := data_len b1 + len\<rparr>
         in (Some (data_ptr b2), b2)))"

definition reserve_tailroom :: "PacketBuffer \<Rightarrow> size_t \<Rightarrow> addr option \<times> PacketBuffer" where
  "reserve_tailroom b len =
     (let current_dynamic_tailroom =
            (buffer_start b + total_allocated_size b) - (data_ptr b + data_len b) in
      if len > current_dynamic_tailroom then (None, b)
      else
        (let write_ptr = data_ptr b + data_len b;
             b1 = b\<lparr>data_len := data_len b + len\<rparr>
         in (Some write_ptr, b1)))"

definition next_buffer :: "PacketBuffer \<Rightarrow> addr option" where
  "next_buffer b = next_ptr b"

definition set_next_buffer :: "PacketBuffer \<Rightarrow> addr option \<Rightarrow> PacketBuffer" where
  "set_next_buffer b nxt = b\<lparr>next_ptr := nxt\<rparr>"

definition get_numa_node :: "PacketBuffer \<Rightarrow> int" where
  "get_numa_node b = numa_node b"

subsection \<open>The window of a buffer inside its region\<close>

text \<open>
  The region of a buffer is \<open>total_allocated_size\<close> bytes from \<open>buffer_start\<close>. It is a
  block of real memory, so its end is an address: the sum does not wrap. The configured
  headroom and tailroom are parts of the region.
\<close>

definition region_ok :: "PacketBuffer \<Rightarrow> bool" where
  "region_ok b \<longleftrightarrow>
     unat (buffer_start b) + unat (total_allocated_size b) < 2 ^ 64 \<and>
     unat (headroom b) + unat (tailroom b) \<le> unat (total_allocated_size b)"

text \<open>
  The two invariants of the data model, read on the addresses as numbers: the window
  starts at or after the region's start and ends at or before the region's end.
\<close>

definition window_inv :: "PacketBuffer \<Rightarrow> bool" where
  "window_inv b \<longleftrightarrow>
     unat (buffer_start b) \<le> unat (data_ptr b) \<and>
     unat (data_ptr b) + unat (data_len b)
       \<le> unat (buffer_start b) + unat (total_allocated_size b)"

text \<open>The state a buffer has after construction and after every reset.\<close>

definition initial_window :: "PacketBuffer \<Rightarrow> bool" where
  "initial_window b \<longleftrightarrow> data_ptr b = buffer_start b + headroom b \<and> data_len b = 0"

text \<open>The three public operations on the window, and the states a sequence of them passes.\<close>

datatype window_op = Set_data_len size_t | Reserve_headroom size_t | Reserve_tailroom size_t

fun apply_op :: "window_op \<Rightarrow> PacketBuffer \<Rightarrow> PacketBuffer" where
  "apply_op (Set_data_len n) b = set_data_len b n"
| "apply_op (Reserve_headroom n) b = snd (reserve_headroom b n)"
| "apply_op (Reserve_tailroom n) b = snd (reserve_tailroom b n)"

fun run_ops :: "window_op list \<Rightarrow> PacketBuffer \<Rightarrow> PacketBuffer list" where
  "run_ops [] b = []"
| "run_ops (op # ops) b = apply_op op b # run_ops ops (apply_op op b)"

subsection \<open>std::map\<close>

text \<open>
  A \<^verbatim>\<open>std::map\<close> keeps its entries in ascending order of their keys, one entry per
  key; it is the list of its entries in that order. \<open>map_find\<close> is \<^verbatim>\<open>find\<close> (\<open>None\<close>
  for \<^verbatim>\<open>end()\<close>), \<open>map_count\<close> is \<^verbatim>\<open>count\<close>, \<open>map_lower_bound\<close> is \<^verbatim>\<open>lower_bound\<close>
  (the first entry whose key is not less than the argument), \<open>map_assign\<close> stores a
  value under a key at its place in the order, and \<open>map_subscript\<close> is \<^verbatim>\<open>operator[]\<close>:
  it gives the value under the key and inserts a default value first when the key is
  new.
\<close>

fun map_find :: "('k \<times> 'v) list \<Rightarrow> 'k \<Rightarrow> 'v option" where
  "map_find [] k = None"
| "map_find ((k', v) # m) k = (if k' = k then Some v else map_find m k)"

definition map_count :: "('k \<times> 'v) list \<Rightarrow> 'k \<Rightarrow> nat" where
  "map_count m k = (case map_find m k of None \<Rightarrow> 0 | Some v \<Rightarrow> 1)"

fun map_lower_bound :: "('k::linorder \<times> 'v) list \<Rightarrow> 'k \<Rightarrow> ('k \<times> 'v) option" where
  "map_lower_bound [] k = None"
| "map_lower_bound ((k', v) # m) k =
     (if k' < k then map_lower_bound m k else Some (k', v))"

fun map_assign :: "('k::linorder \<times> 'v) list \<Rightarrow> 'k \<Rightarrow> 'v \<Rightarrow> ('k \<times> 'v) list" where
  "map_assign [] k v = [(k, v)]"
| "map_assign ((k', v') # m) k v =
     (if k < k' then (k, v) # (k', v') # m
      else if k = k' then (k, v) # m
      else (k', v') # map_assign m k v)"

definition map_subscript ::
  "('k::linorder \<times> 'v) list \<Rightarrow> 'k \<Rightarrow> 'v \<Rightarrow> 'v \<times> ('k \<times> 'v) list" where
  "map_subscript m k dflt =
     (case map_find m k of
        Some v \<Rightarrow> (v, m)
      | None \<Rightarrow> (dflt, map_assign m k dflt))"

definition map_keys :: "('k \<times> 'v) list \<Rightarrow> 'k list" where
  "map_keys m = map fst m"

definition map_sorted :: "('k::linorder \<times> 'v) list \<Rightarrow> bool" where
  "map_sorted m \<longleftrightarrow> sorted_wrt (<) (map_keys m)"

subsection \<open>PacketBufferPool (include/packet_buffer_pool.hpp)\<close>

text \<open>
  The fields are the private members the header declares; \<open>pool_numa_node\<close>,
  \<open>pool_headroom_size\<close> and \<open>pool_tailroom_size\<close> are the members \<^verbatim>\<open>numa_node_\<close>,
  \<^verbatim>\<open>headroom_size_\<close> and \<^verbatim>\<open>tailroom_size_\<close>. The free list holds the buffers
  themselves: a unit is either in the free list of its pool or in the hands of a caller.
\<close>

record PacketBufferPool =
  buffer_payload_size :: size_t
  initial_pool_count :: size_t
  pool_numa_node :: int
  pool_headroom_size :: size_t
  pool_tailroom_size :: size_t
  single_buffer_unit_alloc_size :: size_t
  pool_memory_block :: addr
  free_list :: "PacketBuffer list"
  alloc_count :: size_t
  dealloc_count :: size_t

text \<open>
  The source file of the member functions, \<^verbatim>\<open>src/packet_buffer_pool.cpp\<close>, is not among the
  sources. The functions of the manager take the two they call as arguments. \<open>new_pool\<close> is
  the constructor as \<^verbatim>\<open>std::make_unique<PacketBufferPool>\<close> calls it: its first argument is
  the place the object is created at, the others are the arguments of the constructor in
  the order of the header, and the result is the pool or the exception thrown, one of the
  two kinds \<^verbatim>\<open>configure_pools_for_numa_node\<close> catches. \<open>pool_allocate_buffer\<close> is
  \<^verbatim>\<open>allocate_buffer\<close>: it returns the buffer, or null, and the pool as the call leaves it.
\<close>

text \<open>\<open>Bad_alloc\<close> is \<^verbatim>\<open>std::bad_alloc\<close>; \<open>Std_exception\<close> is any other \<^verbatim>\<open>std::exception\<close>.\<close>

datatype construction_error = Bad_alloc | Std_exception

type_synonym pool_constructor =
  "pool_ptr \<Rightarrow> size_t \<Rightarrow> size_t \<Rightarrow> int \<Rightarrow> size_t \<Rightarrow> size_t \<Rightarrow>
   construction_error + PacketBufferPool"

type_synonym pool_allocate =
  "PacketBufferPool \<Rightarrow> PacketBuffer option \<times> PacketBufferPool"

subsection \<open>PoolManager (include/pool_manager.hpp, src/pool_manager.cpp)\<close>

record PoolConfig =
  buffer_size :: size_t
  initial_count :: size_t
  cfg_headroom :: size_t
  cfg_tailroom :: size_t

text \<open>
  \<open>cfg_headroom\<close> and \<open>cfg_tailroom\<close> are the members \<^verbatim>\<open>headroom\<close> and \<^verbatim>\<open>tailroom\<close> of
  \<^verbatim>\<open>PoolConfig\<close>. The manager is its member \<^verbatim>\<open>numa_pools_\<close>, a map from NUMA node to a
  map from payload size to the pool it owns.
\<close>

type_synonym pools_by_size = "(size_t \<times> PacketBufferPool) list"

record PoolManager =
  numa_pools :: "(int \<times> pools_by_size) list"

definition PoolManager_ctor :: PoolManager where
  "PoolManager_ctor = \<lparr>numa_pools = []\<rparr>"

text \<open>
  The loop of \<^verbatim>\<open>configure_pools_for_numa_node\<close> over the configs, on the map of the
  node that the reference \<^verbatim>\<open>pools_for_specific_numa\<close> names. \<^verbatim>\<open>continue\<close> goes on with
  the rest; \<^verbatim>\<open>return false\<close> in either handler ends the loop with the map as it is.
\<close>

fun configure_loop ::
  "pool_constructor \<Rightarrow> int \<Rightarrow> PoolConfig list \<Rightarrow> pools_by_size \<Rightarrow> bool \<times> pools_by_size" where
  "configure_loop new_pool node [] pools = (True, pools)"
| "configure_loop new_pool node (config # configs) pools =
     (if map_count pools (buffer_size config) \<noteq> 0
      then configure_loop new_pool node configs pools
      else
        (case new_pool (node, buffer_size config)
                (buffer_size config) (initial_count config) node
                (cfg_headroom config) (cfg_tailroom config) of
           Inr pool \<Rightarrow>
             configure_loop new_pool node configs
               (map_assign pools (buffer_size config) pool)
         | Inl Bad_alloc \<Rightarrow> (False, pools)
         | Inl Std_exception \<Rightarrow> (False, pools)))"

definition configure_pools_for_numa_node ::
  "pool_constructor \<Rightarrow> PoolManager \<Rightarrow> int \<Rightarrow> PoolConfig list \<Rightarrow> bool \<times> PoolManager" where
  "configure_pools_for_numa_node new_pool mgr node configs =
     (case map_subscript (numa_pools mgr) node [] of
        (pools_for_specific_numa, numa_pools1) \<Rightarrow>
          (case configure_loop new_pool node configs pools_for_specific_numa of
             (ok, pools') \<Rightarrow>
               (ok, mgr\<lparr>numa_pools := map_assign numa_pools1 node pools'\<rparr>)))"

definition add_pool ::
  "pool_constructor \<Rightarrow> PoolManager \<Rightarrow> int \<Rightarrow> PoolConfig \<Rightarrow> bool \<times> PoolManager" where
  "add_pool new_pool mgr node config =
     configure_pools_for_numa_node new_pool mgr node [config]"

text \<open>
  \<^verbatim>\<open>find_pool\<close> returns a pointer to the pool it finds: the node whose map it searched
  and the key of the entry \<^verbatim>\<open>lower_bound\<close> gave.
\<close>

definition find_pool :: "PoolManager \<Rightarrow> size_t \<Rightarrow> int \<Rightarrow> pool_ptr option" where
  "find_pool mgr desired_payload_size node =
     (let specific =
            (case map_find (numa_pools mgr) node of
               Some size_to_pool_map \<Rightarrow>
                 (case map_lower_bound size_to_pool_map desired_payload_size of
                    Some (k, pool) \<Rightarrow> Some (node, k)
                  | None \<Rightarrow> None)
             | None \<Rightarrow> None)
      in case specific of
           Some p \<Rightarrow> Some p
         | None \<Rightarrow>
             if node \<noteq> - 1 then
               (case map_find (numa_pools mgr) (- 1) of
                  Some size_to_pool_map \<Rightarrow>
                    (case map_lower_bound size_to_pool_map desired_payload_size of
                       Some (k, pool) \<Rightarrow> Some (- 1, k)
                     | None \<Rightarrow> None)
                | None \<Rightarrow> None)
             else None)"

text \<open>The pool object a pointer points to, and the manager with that object replaced.\<close>

definition pool_at :: "PoolManager \<Rightarrow> pool_ptr \<Rightarrow> PacketBufferPool option" where
  "pool_at mgr p =
     (case map_find (numa_pools mgr) (fst p) of
        Some size_to_pool_map \<Rightarrow> map_find size_to_pool_map (snd p)
      | None \<Rightarrow> None)"

definition store_pool :: "PoolManager \<Rightarrow> pool_ptr \<Rightarrow> PacketBufferPool \<Rightarrow> PoolManager" where
  "store_pool mgr p pool =
     (case map_find (numa_pools mgr) (fst p) of
        Some size_to_pool_map \<Rightarrow>
          mgr\<lparr>numa_pools :=
                map_assign (numa_pools mgr) (fst p) (map_assign size_to_pool_map (snd p) pool)\<rparr>
      | None \<Rightarrow> mgr)"

text \<open>
  \<^verbatim>\<open>allocate\<close> calls \<^verbatim>\<open>allocate_buffer\<close> on the pool found, once, and returns what that
  call returns. A pointer \<^verbatim>\<open>find_pool\<close> returns always points to a pool of the manager
  (lemma \<open>find_pool_points_to_pool\<close> below), so the branch for a dangling pointer is never
  taken.
\<close>

definition allocate ::
  "pool_allocate \<Rightarrow> PoolManager \<Rightarrow> size_t \<Rightarrow> int \<Rightarrow> PacketBuffer option \<times> PoolManager" where
  "allocate pool_allocate_buffer mgr desired_payload_size node =
     (case find_pool mgr desired_payload_size node of
        Some pool \<Rightarrow>
          (case pool_at mgr pool of
             Some pool_object \<Rightarrow>
               (case pool_allocate_buffer pool_object of
                  (buffer, pool_object') \<Rightarrow> (buffer, store_pool mgr pool pool_object'))
           | None \<Rightarrow> (None, mgr))
      | None \<Rightarrow> (None, mgr))"

text \<open>\<^verbatim>\<open>deallocate\<close> does nothing for a null buffer and calls \<^verbatim>\<open>release\<close> otherwise.\<close>

definition deallocate :: "PacketBuffer option \<Rightarrow> (PacketBuffer \<times> pool_call option) option" where
  "deallocate buffer = (case buffer of None \<Rightarrow> None | Some b \<Rightarrow> Some (release b))"

text \<open>The size classes registered for a node, and the state of the maps of a manager.\<close>

definition size_classes :: "PoolManager \<Rightarrow> int \<Rightarrow> size_t set" where
  "size_classes mgr node =
     (case map_find (numa_pools mgr) node of
        Some size_to_pool_map \<Rightarrow> set (map_keys size_to_pool_map)
      | None \<Rightarrow> {})"

definition registry_ok :: "PoolManager \<Rightarrow> bool" where
  "registry_ok mgr \<longleftrightarrow>
     map_sorted (numa_pools mgr) \<and> list_all (\<lambda>(node, pools). map_sorted pools) (numa_pools mgr)"

subsection \<open>A pool modelled from the spec\<close>

text \<open>
  What a pool takes from its host when it is constructed: the arena the allocation for
  the pool at a given place returns (\<open>None\<close> when the allocation fails), the reading of
  the clock, and the sizes of a metadata record and of a buffer object.
\<close>

record host =
  arena_of :: "pool_ptr \<Rightarrow> addr option"
  clock_now :: nat
  record_size :: size_t
  control_block_size :: size_t

text \<open>
  Modelled from the spec: the construction of the units of a \<^verbatim>\<open>PacketBufferPool\<close>, whose
  source file \<^verbatim>\<open>src/packet_buffer_pool.cpp\<close> is not among the sources. Section 4.2 of the
  spec:
  construction allocates one arena of \<open>unit_count \<times> (record_size + control_block_size +
  headroom + payload + tailroom)\<close> bytes, constructs every unit's record and control block
  in place, with reference count 0 and lifecycle state free, and inserts all units into
  the free list; a failure to obtain memory is a failure of the construction, never a
  partially initialised pool. Unit \<open>i\<close> lies \<open>i\<close> strides into the arena, laid out as
  record, control block, headroom, payload, tailroom.
\<close>

definition make_unit ::
  "host \<Rightarrow> pool_ptr \<Rightarrow> addr \<Rightarrow> size_t \<Rightarrow> size_t \<Rightarrow> int \<Rightarrow> size_t \<Rightarrow> size_t \<Rightarrow> nat \<Rightarrow> PacketBuffer" where
  "make_unit h self base stride payload node hr tr i =
     (let unit_start = base + of_nat i * stride in
      PacketBuffer_ctor (Some self) unit_start stride
        (unit_start + record_size h + control_block_size h) payload hr tr
        (Some (BufferMetadata_ctor (clock_now h))) node)"

text \<open>
  Modelled from the spec: the constructor of \<^verbatim>\<open>PacketBufferPool\<close>, not among the sources.
  Section 4.2, as above: the arena is obtained or the construction fails; every unit is
  constructed and put into the free list; both counters start at 0.
\<close>

definition PacketBufferPool_ctor ::
  "host \<Rightarrow> pool_ptr \<Rightarrow> size_t \<Rightarrow> size_t \<Rightarrow> int \<Rightarrow> size_t \<Rightarrow> size_t \<Rightarrow>
   construction_error + PacketBufferPool" where
  "PacketBufferPool_ctor h self payload unit_count node hr tr =
     (let stride = record_size h + control_block_size h + hr + payload + tr in
      case arena_of h self of
        None \<Rightarrow> Inl Bad_alloc
      | Some base \<Rightarrow>
          Inr \<lparr>buffer_payload_size = payload,
               initial_pool_count = unit_count,
               pool_numa_node = node,
               pool_headroom_size = hr,
               pool_tailroom_size = tr,
               single_buffer_unit_alloc_size = stride,
               pool_memory_block = base,
               free_list =
                 map (make_unit h self base stride payload node hr tr)
                   [0..<unat unit_count],
               alloc_count = 0,
               dealloc_count = 0\<rparr>)"

text \<open>
  Modelled from the spec: \<^verbatim>\<open>PacketBufferPool::allocate_buffer\<close>, not among the sources.
  Section 4.2: it pops one unit from the free list (which one is left open; here the
  first), sets its reference count to 1 and its lifecycle state to allocated, resets
  the window to \<open>(region_start + headroom, 0)\<close>, increments the allocation counter and
  returns the unit. With an empty free list it returns null and changes nothing.
\<close>

definition allocate_buffer :: "PacketBufferPool \<Rightarrow> PacketBuffer option \<times> PacketBufferPool" where
  "allocate_buffer pool =
     (case free_list pool of
        [] \<Rightarrow> (None, pool)
      | b # rest \<Rightarrow>
          (Some (b\<lparr>ref_count := 1,
                   metadata := map_option (set_state Allocated) (metadata b),
                   data_ptr := buffer_start b + headroom b,
                   data_len := 0\<rparr>),
           pool\<lparr>free_list := rest, alloc_count := alloc_count pool + 1\<rparr>))"

subsection \<open>Auxiliary definitions\<close>

text \<open>
  Names for three terms of the functions above, used to state lemmas: the search of the
  map of one node that \<open>find_pool\<close> makes twice, the constructor call the loop of
  \<open>configure_pools_for_numa_node\<close> makes for a config, and the map of a node (empty when
  the node has none).
\<close>

definition search_tier :: "PoolManager \<Rightarrow> size_t \<Rightarrow> int \<Rightarrow> pool_ptr option" where
  "search_tier mgr s node =
     (case map_find (numa_pools mgr) node of
        Some size_to_pool_map \<Rightarrow>
          (case map_lower_bound size_to_pool_map s of
             Some (k, pool) \<Rightarrow> Some (node, k)
           | None \<Rightarrow> None)
      | None \<Rightarrow> None)"

definition construct ::
  "pool_constructor \<Rightarrow> int \<Rightarrow> PoolConfig \<Rightarrow> construction_error + PacketBufferPool" where
  "construct new_pool node config =
     new_pool (node, buffer_size config) (buffer_size config)
       (initial_count config) node (cfg_headroom config) (cfg_tailroom config)"

definition tier_of :: "PoolManager \<Rightarrow> int \<Rightarrow> pools_by_size" where
  "tier_of mgr node = (case map_find (numa_pools mgr) node of Some tier \<Rightarrow> tier | None \<Rightarrow> [])"

subsection \<open>Sample values\<close>

text \<open>
  The buffer of the test \<^verbatim>\<open>PacketBufferTest.DataManipulation\<close>: headroom 32, payload 128,
  tailroom 16, one reference taken. Its region starts at address 4120.
\<close>

definition sample_buffer :: PacketBuffer where
  "sample_buffer =
     add_ref (PacketBuffer_ctor None 4000 264 4120 128 32 16
       (Some (BufferMetadata_ctor 0)) (- 1))"

text \<open>A run of window operations on it, with requests that fit and requests that do not.\<close>

definition sample_ops :: "window_op list" where
  "sample_ops =
     [Set_data_len 50, Set_data_len 129, Reserve_headroom 10, Reserve_headroom 40,
      Reserve_tailroom 6, Reserve_tailroom 100, Set_data_len 18446744073709551615]"

text \<open>
  The sample buffer with a payload of 10 bytes and a link, owned by no pool; and the buffer
  of the test \<^verbatim>\<open>PacketBufferTest.RefCountingAndRelease\<close> (headroom 32, payload 128, no
  tailroom) at its last release: length set to 10, 5 bytes of headroom reserved, owned by
  the pool at the place \<open>(-1, 128)\<close>.
\<close>

definition orphan_buffer :: PacketBuffer where
  "orphan_buffer = set_next_buffer (set_data_len sample_buffer 10) (Some 8000)"

definition owned_buffer :: PacketBuffer where
  "owned_buffer =
     set_next_buffer
       (snd (reserve_headroom
          (set_data_len
             (add_ref (PacketBuffer_ctor (Some (- 1, 128)) 4000 248 4120 128 32 0
                (Some (BufferMetadata_ctor 0)) (- 1)))
             10)
          5))
       (Some 8000)"

text \<open>
  A host that has arenas for six pools and none for any other, the configs of a manager
  with pools of 128, 512 and 1024 bytes on node 0 and a pool of 1024 bytes on the global
  node, that manager, and the manager after its one 128-byte buffer has been taken.
  \<open>pool_config\<close> is the brace initialiser of \<^verbatim>\<open>PoolConfig\<close>.
\<close>

definition sample_host :: host where
  "sample_host =
     \<lparr>arena_of = (\<lambda>p. if p = (0, 128) then Some 1048576
                       else if p = (0, 512) then Some 2097152
                       else if p = (0, 1024) then Some 3145728
                       else if p = (- 1, 1024) then Some 4194304
                       else if p = (0, 256) then Some 5242880
                       else if p = (0, 2048) then Some 6291456
                       else None),
      clock_now = 0, record_size = 32, control_block_size = 88\<rparr>"

definition pool_config :: "size_t \<Rightarrow> size_t \<Rightarrow> size_t \<Rightarrow> size_t \<Rightarrow> PoolConfig" where
  "pool_config s c hr tr =
     \<lparr>buffer_size = s, initial_count = c, cfg_headroom = hr, cfg_tailroom = tr\<rparr>"

definition node0_configs :: "PoolConfig list" where
  "node0_configs = [pool_config 128 1 32 0, pool_config 512 2 64 0, pool_config 1024 1 64 0]"

definition global_configs :: "PoolConfig list" where
  "global_configs = [pool_config 1024 2 128 0]"

definition node0_manager :: PoolManager where
  "node0_manager = snd (configure_pools_for_numa_node (PacketBufferPool_ctor sample_host) PoolManager_ctor 0 node0_configs)"

definition sample_manager :: PoolManager where
  "sample_manager = snd (configure_pools_for_numa_node (PacketBufferPool_ctor sample_host) node0_manager (- 1) global_configs)"

definition exhausted_manager :: PoolManager where
  "exhausted_manager = snd (allocate allocate_buffer sample_manager 100 0)"

section \<open>Properties of the buffer window\<close>

lemma region_end_unat:
  "region_ok b \<Longrightarrow>
   unat (buffer_start b + total_allocated_size b)
     = unat (buffer_start b) + unat (total_allocated_size b)"
  by (simp add: region_ok_def unat_add_lem [THEN iffD1])

lemma available_unat:
  assumes "region_ok b" "window_inv b"
  shows "unat ((buffer_start b + total_allocated_size b) - data_ptr b)
           = unat (buffer_start b) + unat (total_allocated_size b) - unat (data_ptr b)"
proof -
  have "unat (data_ptr b) \<le> unat (buffer_start b + total_allocated_size b)"
    using assms by (simp add: region_end_unat window_inv_def)
  then have "data_ptr b \<le> buffer_start b + total_allocated_size b"
    by (simp add: word_le_nat_alt)
  then show ?thesis
    using assms(1) by (simp add: unat_sub region_end_unat)
qed

lemma window_sum_unat:
  assumes "region_ok b" "window_inv b"
  shows "unat (data_ptr b + data_len b) = unat (data_ptr b) + unat (data_len b)"
  using assms by (simp add: region_ok_def window_inv_def unat_add_lem [THEN iffD1])

lemma headroom_unat:
  assumes "window_inv b"
  shows "unat (data_ptr b - buffer_start b) = unat (data_ptr b) - unat (buffer_start b)"
  using assms by (simp add: window_inv_def unat_sub word_le_nat_alt)

lemma tail_unat:
  assumes "region_ok b" "window_inv b"
  shows "unat ((buffer_start b + total_allocated_size b) - (data_ptr b + data_len b))
           = unat (buffer_start b) + unat (total_allocated_size b)
             - (unat (data_ptr b) + unat (data_len b))"
proof -
  have "data_ptr b + data_len b \<le> buffer_start b + total_allocated_size b"
    using assms by (simp add: word_le_nat_alt window_sum_unat region_end_unat window_inv_def)
  then show ?thesis
    using assms by (simp add: unat_sub window_sum_unat region_end_unat)
qed

lemma set_data_len_unat:
  assumes "region_ok b" "window_inv b"
  shows "unat (data_len (set_data_len b n))
           = (if unat (data_ptr b) + unat n
                   \<le> unat (buffer_start b) + unat (total_allocated_size b)
              then unat n
              else unat (buffer_start b) + unat (total_allocated_size b) - unat (data_ptr b))"
  using assms available_unat [OF assms]
  by (auto simp: set_data_len_def word_less_nat_alt window_inv_def)

lemma set_data_len_frame: "set_data_len b n = b\<lparr>data_len := data_len (set_data_len b n)\<rparr>"
  by (simp add: set_data_len_def)

lemma reserve_headroom_ok_iff:
  assumes "window_inv b"
  shows  "fst (reserve_headroom b n) \<noteq> None \<longleftrightarrow> unat n \<le> unat (data_ptr b) - unat (buffer_start b)"
  using headroom_unat [OF assms]
  by (auto simp: reserve_headroom_def Let_def word_less_nat_alt)

lemma reserve_headroom_eq:
  assumes "window_inv b" "unat n \<le> unat (data_ptr b) - unat (buffer_start b)"
  shows "reserve_headroom b n =
           (Some (data_ptr b - n), b\<lparr>data_ptr := data_ptr b - n, data_len := data_len b + n\<rparr>)"
proof -
  have "n \<le> data_ptr b - buffer_start b"
    using assms headroom_unat [OF assms(1)] by (simp add: word_le_nat_alt)
  then show ?thesis
    by (simp add: reserve_headroom_def Let_def not_less [symmetric])
qed

lemma reserve_headroom_unat:
  assumes "region_ok b" "window_inv b" "unat n \<le> unat (data_ptr b) - unat (buffer_start b)"
  shows "unat (data_ptr b - n) = unat (data_ptr b) - unat n"
    and "unat (data_len b + n) = unat (data_len b) + unat n"
proof -
  have "n \<le> data_ptr b"
    using assms by (simp add: word_le_nat_alt window_inv_def)
  then show "unat (data_ptr b - n) = unat (data_ptr b) - unat n"
    by (simp add: unat_sub)
  have "unat (data_len b) + unat n < 2 ^ 64"
    using assms unfolding region_ok_def window_inv_def by linarith
  then show "unat (data_len b + n) = unat (data_len b) + unat n"
    by (simp add: unat_add_lem [THEN iffD1])
qed

lemma reserve_headroom_failure:
  assumes "window_inv b" "\<not> unat n \<le> unat (data_ptr b) - unat (buffer_start b)"
  shows "reserve_headroom b n = (None, b)"
  using assms headroom_unat [OF assms(1)]
  by (simp add: reserve_headroom_def Let_def word_less_nat_alt)

lemma reserve_tailroom_cases:
  assumes "region_ok b" "window_inv b"
  shows "reserve_tailroom b n =
           (if unat (data_ptr b) + unat (data_len b) + unat n
                 \<le> unat (buffer_start b) + unat (total_allocated_size b)
            then (Some (data_ptr b + data_len b), b\<lparr>data_len := data_len b + n\<rparr>)
            else (None, b))"
  using assms tail_unat [OF assms]
  by (auto simp: reserve_tailroom_def Let_def word_less_nat_alt window_inv_def)

lemma region_ok_data_upd [simp]:
  "region_ok (b\<lparr>data_len := l\<rparr>) = region_ok b"
  "region_ok (b\<lparr>data_ptr := p\<rparr>) = region_ok b"
  by (simp_all add: region_ok_def)

lemma set_data_len_inv:
  assumes "region_ok b" "window_inv b"
  shows "window_inv (set_data_len b n)"
proof -
  have "window_inv (b\<lparr>data_len := data_len (set_data_len b n)\<rparr>)"
    using assms set_data_len_unat [OF assms, of n]
    by (auto simp: window_inv_def)
  then show ?thesis
    using set_data_len_frame [of b n] by simp
qed

lemma reserve_headroom_inv:
  assumes "region_ok b" "window_inv b"
  shows "window_inv (snd (reserve_headroom b n))"
proof (cases "unat n \<le> unat (data_ptr b) - unat (buffer_start b)")
  case True
  show ?thesis
    using assms True reserve_headroom_unat [OF assms True]
    by (auto simp: reserve_headroom_eq [OF assms(2) True] window_inv_def)
next
  case False
  then show ?thesis
    using assms by (simp add: reserve_headroom_failure)
qed

lemma reserve_tailroom_inv:
  assumes "region_ok b" "window_inv b"
  shows "window_inv (snd (reserve_tailroom b n))"
proof (cases "unat (data_ptr b) + unat (data_len b) + unat n
                 \<le> unat (buffer_start b) + unat (total_allocated_size b)")
  case True
  have "unat (data_len b) + unat n < 2 ^ 64"
    using assms True unfolding region_ok_def by linarith
  then have "unat (data_len b + n) = unat (data_len b) + unat n"
    by (simp add: unat_add_lem [THEN iffD1])
  then show ?thesis
    using assms True by (simp add: reserve_tailroom_cases window_inv_def)
next
  case False
  then show ?thesis
    using assms by (simp add: reserve_tailroom_cases)
qed

lemma apply_op_region:
  "buffer_start (apply_op op b) = buffer_start b \<and>
   total_allocated_size (apply_op op b) = total_allocated_size b \<and>
   headroom (apply_op op b) = headroom b \<and>
   tailroom (apply_op op b) = tailroom b"
  by (cases op) (simp_all add: set_data_len_def reserve_headroom_def reserve_tailroom_def Let_def)

lemma apply_op_region_ok: "region_ok (apply_op op b) = region_ok b"
  by (simp add: region_ok_def apply_op_region)

lemma apply_op_inv:
  assumes "region_ok b" "window_inv b"
  shows "window_inv (apply_op op b)"
  using assms
  by (cases op) (simp_all add: set_data_len_inv reserve_headroom_inv reserve_tailroom_inv)

lemma initial_window_inv:
  assumes "region_ok b" "initial_window b"
  shows "window_inv b"
proof -
  have "unat (buffer_start b) + unat (headroom b) < 2 ^ 64"
    using assms unfolding region_ok_def by linarith
  then have "unat (buffer_start b + headroom b) = unat (buffer_start b) + unat (headroom b)"
    by (simp add: unat_add_lem [THEN iffD1])
  then show ?thesis
    using assms by (simp add: window_inv_def initial_window_def region_ok_def)
qed

text \<open>
  A buffer constructed in a region that fits into the address space has a region that is
  a block of memory and a window in its initial state.
\<close>

lemma PacketBuffer_ctor_initial:
  assumes "unat start + unat hr + unat payload + unat tr < 2 ^ 64"
  shows "region_ok (PacketBuffer_ctor pool blk sz start payload hr tr md node)"
    and "initial_window (PacketBuffer_ctor pool blk sz start payload hr tr md node)"
proof -
  have "unat hr + unat payload < 2 ^ 64"
    using assms by linarith
  then have 1: "unat (hr + payload) = unat hr + unat payload"
    by (simp add: unat_add_lem [THEN iffD1])
  have "unat (hr + payload) + unat tr < 2 ^ 64"
    using assms 1 by linarith
  then have 2: "unat (hr + payload + tr) = unat hr + unat payload + unat tr"
    using 1 by (simp add: unat_add_lem [THEN iffD1])
  show "region_ok (PacketBuffer_ctor pool blk sz start payload hr tr md node)"
    using assms 2 by (simp add: region_ok_def PacketBuffer_ctor_def)
  show "initial_window (PacketBuffer_ctor pool blk sz start payload hr tr md node)"
    by (simp add: initial_window_def PacketBuffer_ctor_def)
qed

lemma run_ops_inv:
  assumes "region_ok b" "window_inv b"
  shows "\<forall>b' \<in> set (run_ops ops b).
           region_ok b' \<and> window_inv b' \<and> buffer_start b' = buffer_start b \<and>
           total_allocated_size b' = total_allocated_size b"
  using assms
proof (induction ops arbitrary: b)
  case Nil
  then show ?case by simp
next
  case (Cons op ops)
  have 1: "region_ok (apply_op op b)" using Cons.prems by (simp add: apply_op_region_ok)
  have 2: "window_inv (apply_op op b)" using Cons.prems by (rule apply_op_inv)
  show ?case
    using Cons.IH [OF 1 2] 1 2 by (simp add: apply_op_region)
qed

lemma sample_buffer_ok:
  "region_ok sample_buffer" "window_inv sample_buffer" "initial_window sample_buffer"
  by (simp_all add: sample_buffer_def add_ref_def PacketBuffer_ctor_def region_ok_def
      window_inv_def initial_window_def)

lemma sample_buffer_unat:
  "unat (buffer_start sample_buffer) = 4120"
  "unat (total_allocated_size sample_buffer) = 176"
  "unat (data_ptr sample_buffer) = 4152"
  "unat (data_len sample_buffer) = 0"
  by (simp_all add: sample_buffer_def add_ref_def PacketBuffer_ctor_def)

section \<open>Properties of std::map\<close>

lemma map_keys_simps [simp]:
  "map_keys [] = []"
  "map_keys ((k, v) # m) = k # map_keys m"
  by (simp_all add: map_keys_def)

lemma map_find_keys: "map_find m k \<noteq> None \<longleftrightarrow> k \<in> set (map_keys m)"
  by (induction m) auto

lemma map_find_Some_keys: "map_find m k = Some v \<Longrightarrow> k \<in> set (map_keys m)"
  using map_find_keys [of m k] by simp

lemma map_count_keys: "map_count m k \<noteq> 0 \<longleftrightarrow> k \<in> set (map_keys m)"
  using map_find_keys [of m k] by (auto simp: map_count_def split: option.splits)

lemma map_find_assign: "map_find (map_assign m k v) k' = (if k' = k then Some v else map_find m k')"
  by (induction m) auto

lemma map_keys_assign: "set (map_keys (map_assign m k v)) = insert k (set (map_keys m))"
  by (induction m) (auto split: if_splits)

lemma map_sorted_Nil [simp]: "map_sorted []"
  by (simp add: map_sorted_def)

lemma map_sorted_Cons:
  "map_sorted ((k, v) # m) \<longleftrightarrow> (\<forall>k' \<in> set (map_keys m). k < k') \<and> map_sorted m"
  by (simp add: map_sorted_def)

lemma map_sorted_assign: "map_sorted m \<Longrightarrow> map_sorted (map_assign m k v)"
proof (induction m)
  case Nil
  then show ?case by (simp add: map_sorted_Cons)
next
  case (Cons e m)
  obtain k' v' where e: "e = (k', v')" by (cases e)
  show ?case
    using Cons unfolding e
    by (auto simp: map_sorted_Cons map_keys_assign)
qed

lemma map_find_below_first:
  "map_sorted ((k', v') # m) \<Longrightarrow> k \<le> k' \<Longrightarrow> map_find m k = None"
  using map_find_keys [of m k] by (auto simp: map_sorted_Cons)

lemma map_assign_same: "map_sorted m \<Longrightarrow> map_find m k = Some v \<Longrightarrow> map_assign m k v = m"
proof (induction m)
  case Nil
  then show ?case by simp
next
  case (Cons e m)
  obtain k' v' where e: "e = (k', v')" by (cases e)
  show ?case
  proof (cases "k < k'")
    case True
    then have "map_find m k = None"
      using Cons.prems(1) map_find_below_first [of k' v' m k] unfolding e by simp
    then show ?thesis using Cons.prems(2) True unfolding e by (auto split: if_splits)
  next
    case False
    then show ?thesis
      using Cons unfolding e by (auto simp: map_sorted_Cons)
  qed
qed

lemma map_lower_bound_Some:
  "map_lower_bound m s = Some (k, v) \<Longrightarrow> s \<le> k \<and> map_find m k = Some v"
  by (induction m) (auto split: if_splits)

lemma map_lower_bound_least:
  "map_sorted m \<Longrightarrow> map_lower_bound m s = Some (k, v) \<Longrightarrow>
   \<forall>k' \<in> set (map_keys m). s \<le> k' \<longrightarrow> k \<le> k'"
proof (induction m)
  case Nil
  then show ?case by simp
next
  case (Cons e m)
  obtain k0 v0 where e: "e = (k0, v0)" by (cases e)
  show ?case
  proof (cases "k0 < s")
    case True
    then show ?thesis
      using Cons unfolding e by (auto simp: map_sorted_Cons)
  next
    case False
    then show ?thesis
      using Cons.prems unfolding e by (auto simp: map_sorted_Cons)
  qed
qed

lemma map_lower_bound_None:
  "map_lower_bound m s = None \<longleftrightarrow> (\<forall>k' \<in> set (map_keys m). k' < s)"
  by (induction m) (auto split: if_splits)

section \<open>Properties of the pool manager\<close>

lemma size_classes_tier:
  "map_find (numa_pools mgr) node = Some tier \<Longrightarrow> size_classes mgr node = set (map_keys tier)"
  by (simp add: size_classes_def)

lemma size_classes_no_tier:
  "map_find (numa_pools mgr) node = None \<Longrightarrow> size_classes mgr node = {}"
  by (simp add: size_classes_def)

lemma map_find_in_set: "map_find m k = Some v \<Longrightarrow> (k, v) \<in> set m"
  by (induction m) (auto split: if_splits)

lemma registry_ok_tier:
  "registry_ok mgr \<Longrightarrow> map_find (numa_pools mgr) node = Some tier \<Longrightarrow> map_sorted tier"
  using map_find_in_set [of "numa_pools mgr" node tier]
  by (auto simp: registry_ok_def list_all_iff)

lemma find_pool_search_tier:
  "find_pool mgr s node =
     (case search_tier mgr s node of
        Some p \<Rightarrow> Some p
      | None \<Rightarrow> if node \<noteq> - 1 then search_tier mgr s (- 1) else None)"
  unfolding find_pool_def search_tier_def Let_def by (rule refl)

lemma search_tier_Some:
  assumes "registry_ok mgr" "search_tier mgr s node = Some (a, k)"
  shows "a = node \<and> k \<in> size_classes mgr node \<and> s \<le> k \<and>
         (\<forall>k' \<in> size_classes mgr node. s \<le> k' \<longrightarrow> k \<le> k')"
proof -
  from assms(2) obtain tier v where
    tier: "map_find (numa_pools mgr) node = Some tier" and
    lb: "map_lower_bound tier s = Some (k, v)" and a: "a = node"
    by (auto simp: search_tier_def split: option.splits)
  have sorted: "map_sorted tier" using assms(1) tier by (rule registry_ok_tier)
  have "s \<le> k" "k \<in> set (map_keys tier)"
    using map_lower_bound_Some [OF lb] map_find_Some_keys by auto
  moreover have "\<forall>k' \<in> set (map_keys tier). s \<le> k' \<longrightarrow> k \<le> k'"
    using map_lower_bound_least [OF sorted lb] .
  ultimately show ?thesis
    using a by (simp add: size_classes_tier [OF tier])
qed

lemma search_tier_None:
  "search_tier mgr s node = None \<longleftrightarrow> (\<forall>k' \<in> size_classes mgr node. k' < s)"
proof (cases "map_find (numa_pools mgr) node")
  case None
  then show ?thesis by (simp add: search_tier_def size_classes_no_tier)
next
  case (Some tier)
  then show ?thesis
    using map_lower_bound_None [of tier s]
    by (auto simp: search_tier_def size_classes_tier split: option.splits)
qed

lemma search_tier_points_to_pool:
  "search_tier mgr s node = Some p \<Longrightarrow> pool_at mgr p \<noteq> None"
  by (auto simp: search_tier_def pool_at_def split: option.splits dest: map_lower_bound_Some)

lemma find_pool_points_to_pool:
  "find_pool mgr s node = Some p \<Longrightarrow> pool_at mgr p \<noteq> None"
  by (auto simp: find_pool_search_tier split: option.splits if_splits
      dest: search_tier_points_to_pool)

lemma find_pool_best_fit:
  assumes "registry_ok mgr"
  shows "case find_pool mgr s node of
           Some (a, k) \<Rightarrow>
             k \<in> size_classes mgr a \<and> s \<le> k \<and>
             (\<forall>k' \<in> size_classes mgr a. s \<le> k' \<longrightarrow> k \<le> k') \<and>
             (a = node \<or>
              (node \<noteq> - 1 \<and> a = - 1 \<and> (\<forall>k' \<in> size_classes mgr node. k' < s)))
         | None \<Rightarrow>
             (\<forall>k' \<in> size_classes mgr node. k' < s) \<and>
             (node \<noteq> - 1 \<longrightarrow> (\<forall>k' \<in> size_classes mgr (- 1). k' < s))"
proof (cases "search_tier mgr s node")
  case (Some p)
  obtain a k where p: "p = (a, k)" by (cases p)
  show ?thesis
    using search_tier_Some [OF assms Some [unfolded p]] Some
    by (simp add: find_pool_search_tier p)
next
  case None
  note specific = this
  show ?thesis
  proof (cases "node \<noteq> - 1")
    case False
    then show ?thesis
      using specific search_tier_None [of mgr s node]
      by (simp add: find_pool_search_tier)
  next
    case True
    show ?thesis
    proof (cases "search_tier mgr s (- 1)")
      case None
      then show ?thesis
        using specific True search_tier_None [of mgr s node] search_tier_None [of mgr s "- 1"]
        by (simp add: find_pool_search_tier)
    next
      case (Some p)
      obtain a k where p: "p = (a, k)" by (cases p)
      show ?thesis
        using search_tier_Some [OF assms Some [unfolded p]] Some specific True
          search_tier_None [of mgr s node]
        by (simp add: find_pool_search_tier p)
    qed
  qed
qed

lemma store_pool_same:
  assumes "registry_ok mgr" "pool_at mgr p = Some obj"
  shows "store_pool mgr p obj = mgr"
proof -
  from assms(2) obtain tier where
    tier: "map_find (numa_pools mgr) (fst p) = Some tier" and
    obj: "map_find tier (snd p) = Some obj"
    by (auto simp: pool_at_def split: option.splits)
  have "map_assign tier (snd p) obj = tier"
    using registry_ok_tier [OF assms(1) tier] obj by (rule map_assign_same)
  moreover have "map_assign (numa_pools mgr) (fst p) tier = numa_pools mgr"
    using assms(1) tier by (simp add: registry_ok_def map_assign_same)
  ultimately show ?thesis
    by (simp add: store_pool_def tier)
qed

lemma allocate_buffer_None:
  "fst (allocate_buffer pool) = None \<Longrightarrow> allocate_buffer pool = (None, pool)"
  by (auto simp: allocate_buffer_def split: list.splits)

lemma configure_loop_Cons:
  "configure_loop mk node (config # configs) pools =
     (if buffer_size config \<in> set (map_keys pools)
      then configure_loop mk node configs pools
      else (case construct mk node config of
              Inr new_pool \<Rightarrow>
                configure_loop mk node configs (map_assign pools (buffer_size config) new_pool)
            | Inl e \<Rightarrow> (False, pools)))"
proof (cases "construct mk node config")
  case (Inl e)
  then show ?thesis
    using map_count_keys [of pools "buffer_size config"]
    by (cases e) (simp_all add: construct_def)
next
  case (Inr p)
  then show ?thesis
    using map_count_keys [of pools "buffer_size config"]
    by (simp add: construct_def)
qed

declare configure_loop.simps(2) [simp del]

lemma configure_loop_append:
  "configure_loop mk node (xs @ ys) pools =
     (case configure_loop mk node xs pools of
        (ok, pools') \<Rightarrow> if ok then configure_loop mk node ys pools' else (False, pools'))"
proof (induction xs arbitrary: pools)
  case Nil
  then show ?case by simp
next
  case (Cons c xs)
  show ?case
    by (simp only: append_Cons configure_loop_Cons Cons.IH split: if_splits sum.splits)
       (simp split: sum.splits)
qed

lemma configure_loop_keeps:
  "map_find pools k = Some p \<Longrightarrow> map_find (snd (configure_loop mk node cs pools)) k = Some p"
proof (induction cs arbitrary: pools)
  case Nil
  then show ?case by simp
next
  case (Cons c cs)
  have k: "k \<in> set (map_keys pools)" using Cons.prems by (rule map_find_Some_keys)
  show ?case
  proof (cases "buffer_size c \<in> set (map_keys pools)")
    case True
    then show ?thesis using Cons by (simp add: configure_loop_Cons)
  next
    case False
    then have "k \<noteq> buffer_size c" using k by auto
    then have "map_find (map_assign pools (buffer_size c) q) k = Some p" for q
      using Cons.prems by (simp add: map_find_assign)
    then show ?thesis
      using False Cons.prems Cons.IH
      by (simp add: configure_loop_Cons split: sum.splits)
  qed
qed

lemma configure_loop_sorted:
  "map_sorted pools \<Longrightarrow> map_sorted (snd (configure_loop mk node cs pools))"
proof (induction cs arbitrary: pools)
  case Nil
  then show ?case by simp
next
  case (Cons c cs)
  then show ?case
    by (simp add: configure_loop_Cons map_sorted_assign split: sum.splits)
qed

lemma configure_unfold:
  "configure_pools_for_numa_node mk mgr node configs =
     (fst (configure_loop mk node configs (tier_of mgr node)),
      mgr\<lparr>numa_pools :=
        map_assign (numa_pools mgr) node (snd (configure_loop mk node configs (tier_of mgr node)))\<rparr>)"
proof (cases "map_find (numa_pools mgr) node")
  case None
  have "map_assign (map_assign m k v) k v' = map_assign m k v'" for m :: "(int \<times> pools_by_size) list" and k v v'
    by (induction m) auto
  then show ?thesis
    using None
    by (simp add: configure_pools_for_numa_node_def map_subscript_def tier_of_def
        split: prod.splits)
next
  case (Some tier)
  then show ?thesis
    by (simp add: configure_pools_for_numa_node_def map_subscript_def tier_of_def
        split: prod.splits)
qed

lemma tier_of_configure:
  "tier_of (snd (configure_pools_for_numa_node mk mgr node configs)) node
     = snd (configure_loop mk node configs (tier_of mgr node))"
  by (simp add: configure_unfold tier_of_def map_find_assign)

lemma tier_of_configure_other:
  "node' \<noteq> node \<Longrightarrow>
   tier_of (snd (configure_pools_for_numa_node mk mgr node configs)) node' = tier_of mgr node'"
  by (simp add: configure_unfold tier_of_def map_find_assign)

lemma size_classes_tier_of: "size_classes mgr node = set (map_keys (tier_of mgr node))"
  by (simp add: size_classes_def tier_of_def split: option.splits)

lemma pool_at_tier_of: "pool_at mgr p = map_find (tier_of mgr (fst p)) (snd p)"
  by (simp add: pool_at_def tier_of_def split: option.splits)

lemma registry_ok_ctor: "registry_ok PoolManager_ctor"
  by (simp add: registry_ok_def PoolManager_ctor_def)

lemma list_all_map_assign:
  "list_all P m \<Longrightarrow> P (k, v) \<Longrightarrow> list_all P (map_assign m k v)"
  by (induction m) auto

lemma registry_ok_tier_of: "registry_ok mgr \<Longrightarrow> map_sorted (tier_of mgr node)"
  using registry_ok_tier [of mgr node]
  by (auto simp: tier_of_def split: option.splits)

lemma registry_ok_configure:
  assumes "registry_ok mgr"
  shows "registry_ok (snd (configure_pools_for_numa_node mk mgr node configs))"
proof -
  have "map_sorted (snd (configure_loop mk node configs (tier_of mgr node)))"
    using registry_ok_tier_of [OF assms] by (rule configure_loop_sorted)
  then show ?thesis
    using assms
    by (simp add: configure_unfold registry_ok_def map_sorted_assign list_all_map_assign)
qed

lemma capacity_make_unit:
  "capacity (make_unit h self base stride payload node hr tr i) = payload"
  by (simp add: make_unit_def PacketBuffer_ctor_def capacity_def Let_def)

lemma make_unit_fields:
  "numa_node (make_unit h self base stride payload node hr tr i) = node"
  "owning_pool (make_unit h self base stride payload node hr tr i) = Some self"
  by (simp_all add: make_unit_def PacketBuffer_ctor_def Let_def)

lemma PacketBufferPool_ctor_free_list:
  assumes "PacketBufferPool_ctor h self payload unit_count node hr tr = Inr p"
      and "unit_count \<noteq> 0"
  shows "\<exists>b rest. free_list p = b # rest \<and> capacity b = payload \<and>
           numa_node b = node \<and> owning_pool b = Some self"
proof -
  have "0 < unat unit_count"
    using assms(2) by (simp add: unat_gt_0)
  then have "[0..<unat unit_count] = 0 # [Suc 0..<unat unit_count]"
    by (simp add: upt_conv_Cons)
  then show ?thesis
    using assms(1)
    by (auto simp: PacketBufferPool_ctor_def Let_def capacity_make_unit
        make_unit_fields split: option.splits)
qed

lemma allocate_buffer_Cons:
  assumes "free_list p = b # rest"
  shows "\<exists>b' p'. allocate_buffer p = (Some b', p') \<and> capacity b' = capacity b \<and>
           numa_node b' = numa_node b \<and> owning_pool b' = owning_pool b \<and> ref_count b' = 1"
  using assms by (simp add: allocate_buffer_def capacity_def)

text \<open>
  The pool modelled from the spec keeps the contract the manager's callers rely on: a
  pool constructed with at least one unit hands out a buffer whose capacity is the
  payload size of the pool, whose affinity is the node of the pool and whose owner is the
  pool.
\<close>

lemma modelled_pool_contract:
  assumes "PacketBufferPool_ctor h self payload unit_count node hr tr = Inr p"
      and "unit_count \<noteq> 0"
  shows "\<exists>b p'. allocate_buffer p = (Some b, p') \<and> capacity b = payload \<and>
           get_numa_node b = node \<and> owning_pool b = Some self"
proof -
  from PacketBufferPool_ctor_free_list [OF assms] obtain b rest where
    "free_list p = b # rest" "capacity b = payload" "numa_node b = node"
    "owning_pool b = Some self"
    by blast
  then show ?thesis
    using allocate_buffer_Cons [of p b rest] by (auto simp: get_numa_node_def)
qed

lemma pool_at_store_pool_other:
  "p' \<noteq> p \<Longrightarrow> pool_at (store_pool mgr p obj) p' = pool_at mgr p'"
  by (cases p; cases p')
     (auto simp: pool_at_def store_pool_def map_find_assign split: option.splits)

lemma allocate_unfold:
  assumes "find_pool mgr s node = Some p" "pool_at mgr p = Some obj"
  shows "allocate ab mgr s node = (fst (ab obj), store_pool mgr p (snd (ab obj)))"
  using assms by (simp add: allocate_def split: prod.splits)

lemma allocate_no_pool:
  "find_pool mgr s node = None \<Longrightarrow> allocate ab mgr s node = (None, mgr)"
  by (simp add: allocate_def)

lemma fresh_registry:
  assumes reg0: "configure_pools_for_numa_node mk PoolManager_ctor 0 [c128, c512, c1024] = (True, m1)"
      and regg: "configure_pools_for_numa_node mk m1 (- 1) [g1024] = (True, m2)"
      and sizes: "buffer_size c128 = 128" "buffer_size c512 = 512" "buffer_size c1024 = 1024"
                 "buffer_size g1024 = 1024"
  shows "\<exists>p1 p2 p3 q.
           construct mk 0 c128 = Inr p1 \<and> construct mk 0 c1024 = Inr p3 \<and>
           numa_pools m2 = [(- 1, [(1024, q)]), (0, [(128, p1), (512, p2), (1024, p3)])]"
proof -
  have t0: "tier_of \<lparr>numa_pools = []\<rparr> 0 = []"
    by (simp add: tier_of_def)
  have loop0: "fst (configure_loop mk 0 [c128, c512, c1024] [])"
    and m1: "numa_pools m1 = [(0, snd (configure_loop mk 0 [c128, c512, c1024] []))]"
    using reg0 by (auto simp: configure_unfold t0 PoolManager_ctor_def)
  from loop0 obtain p1 p2 p3 where
    c: "construct mk 0 c128 = Inr p1" "construct mk 0 c512 = Inr p2" "construct mk 0 c1024 = Inr p3"
    and tier0: "snd (configure_loop mk 0 [c128, c512, c1024] []) = [(128, p1), (512, p2), (1024, p3)]"
    by (auto simp: configure_loop_Cons sizes split: sum.splits)
  have t1: "tier_of m1 (- 1) = []"
    by (simp add: tier_of_def m1)
  have loop1: "fst (configure_loop mk (- 1) [g1024] [])"
    and m2: "numa_pools m2 = map_assign (numa_pools m1) (- 1) (snd (configure_loop mk (- 1) [g1024] []))"
    using regg by (auto simp: configure_unfold t1)
  from loop1 obtain q where
    tierg: "snd (configure_loop mk (- 1) [g1024] []) = [(1024, q)]"
    by (auto simp: configure_loop_Cons sizes split: sum.splits)
  have "numa_pools m2 = [(- 1, [(1024, q)]), (0, [(128, p1), (512, p2), (1024, p3)])]"
    by (simp add: m2 m1 tier0 tierg)
  then show ?thesis using c by blast
qed

lemma registry_ok_store_pool:
  assumes "registry_ok mgr"
  shows "registry_ok (store_pool mgr p obj)"
proof (cases "map_find (numa_pools mgr) (fst p)")
  case None
  then show ?thesis using assms by (simp add: store_pool_def)
next
  case (Some tier)
  have "map_sorted (map_assign tier (snd p) obj)"
    using registry_ok_tier [OF assms Some] by (rule map_sorted_assign)
  then show ?thesis
    using assms Some
    by (simp add: store_pool_def registry_ok_def map_sorted_assign list_all_map_assign)
qed

lemma registry_ok_allocate:
  "registry_ok mgr \<Longrightarrow> registry_ok (snd (allocate ab mgr s node))"
  by (auto simp: allocate_def registry_ok_store_pool split: option.splits prod.splits)

lemma configure_append:
  "configure_pools_for_numa_node mk mgr node (xs @ ys) =
     (if fst (configure_pools_for_numa_node mk mgr node xs)
      then (fst (configure_loop mk node ys
                   (tier_of (snd (configure_pools_for_numa_node mk mgr node xs)) node)),
            mgr\<lparr>numa_pools :=
              map_assign (numa_pools mgr) node
                (snd (configure_loop mk node ys
                   (tier_of (snd (configure_pools_for_numa_node mk mgr node xs)) node)))\<rparr>)
      else (False, snd (configure_pools_for_numa_node mk mgr node xs)))"
  by (simp add: tier_of_configure)
     (simp add: configure_unfold configure_loop_append split: prod.splits)

lemma registry_ok_sample: "registry_ok sample_manager"
  unfolding sample_manager_def node0_manager_def
  by (intro registry_ok_configure registry_ok_ctor)

lemma sample_registration:
  "configure_pools_for_numa_node (PacketBufferPool_ctor sample_host) PoolManager_ctor 0 node0_configs = (True, node0_manager)"
  "configure_pools_for_numa_node (PacketBufferPool_ctor sample_host) node0_manager (- 1) global_configs = (True, sample_manager)"
proof -
  have "fst (configure_pools_for_numa_node (PacketBufferPool_ctor sample_host) PoolManager_ctor 0 node0_configs)"
    by code_simp
  then show "configure_pools_for_numa_node (PacketBufferPool_ctor sample_host) PoolManager_ctor 0 node0_configs = (True, node0_manager)"
    by (simp add: node0_manager_def prod_eq_iff)
  have "fst (configure_pools_for_numa_node (PacketBufferPool_ctor sample_host) node0_manager (- 1) global_configs)"
    by code_simp
  then show "configure_pools_for_numa_node (PacketBufferPool_ctor sample_host) node0_manager (- 1) global_configs = (True, sample_manager)"
    by (simp add: sample_manager_def prod_eq_iff)
qed

section \<open>The claims about the buffer window\<close>

text \<open>
  C7. For every buffer and every \<open>n\<close>, \<open>set_data_len n\<close> changes \<open>data_len\<close> and nothing
  else, and has no error result. The new length is \<open>n\<close> when \<open>n\<close> is at most the
  distance from \<open>data_ptr\<close> to the end of the region, and exactly that distance otherwise.
  On a buffer whose region is a block of memory and whose window lies in it, the
  distance the code computes on machine words is the number
  \<open>region_start + region_size - data_ptr\<close>, and \<open>n\<close> is kept exactly when
  \<open>data_ptr + n \<le> region_start + region_size\<close>.
\<close>

theorem set_data_len_clamps_to_region_end:
  "set_data_len b n = b\<lparr>data_len := data_len (set_data_len b n)\<rparr>
   \<and> data_len (set_data_len b n)
       = (if n \<le> (buffer_start b + total_allocated_size b) - data_ptr b then n
          else (buffer_start b + total_allocated_size b) - data_ptr b)
   \<and> (region_ok b \<and> window_inv b \<longrightarrow>
        unat (data_len (set_data_len b n))
          = (if unat (data_ptr b) + unat n
                  \<le> unat (buffer_start b) + unat (total_allocated_size b)
             then unat n
             else unat (buffer_start b) + unat (total_allocated_size b) - unat (data_ptr b)))"
proof -
  have "data_len (set_data_len b n)
       = (if n \<le> (buffer_start b + total_allocated_size b) - data_ptr b then n
          else (buffer_start b + total_allocated_size b) - data_ptr b)"
    by (auto simp: set_data_len_def)
  then show ?thesis
    using set_data_len_frame [of b n] set_data_len_unat [of b n] by blast
qed

theorem set_data_len_clamps_to_region_end_witness:
  "region_ok sample_buffer \<and> window_inv sample_buffer \<and>
   unat (data_len (set_data_len sample_buffer 100)) = 100 \<and>
   unat (data_len (set_data_len sample_buffer 200)) = 144 \<and>
   set_data_len sample_buffer 200 = sample_buffer\<lparr>data_len := 144\<rparr>"
proof -
  have ok: "region_ok sample_buffer" "window_inv sample_buffer"
    by (rule sample_buffer_ok)+
  have av: "buffer_start sample_buffer + total_allocated_size sample_buffer
              - data_ptr sample_buffer = 144"
    by (simp add: sample_buffer_def add_ref_def PacketBuffer_ctor_def)
  have a: "unat (data_len (set_data_len sample_buffer 100)) = 100"
    using set_data_len_clamps_to_region_end [of sample_buffer 100] ok
    by (simp add: sample_buffer_unat av)
  have b: "unat (data_len (set_data_len sample_buffer 200)) = 144"
    using set_data_len_clamps_to_region_end [of sample_buffer 200] ok
    by (simp add: sample_buffer_unat av)
  have c: "set_data_len sample_buffer 200 = sample_buffer\<lparr>data_len := 144\<rparr>"
    by (simp add: sample_buffer_def add_ref_def PacketBuffer_ctor_def set_data_len_def)
  show ?thesis
    by (intro conjI) (rule ok a b c)+
qed

text \<open>
  C6. For every buffer, \<open>reserve_headroom n\<close> succeeds exactly when \<open>n\<close> is at most the
  dynamic headroom \<open>data_ptr - region_start\<close>. On success \<open>data_ptr\<close> moves back by \<open>n\<close>,
  \<open>data_len\<close> grows by \<open>n\<close>, the new \<open>data_ptr\<close> is returned and no other field changes.
  On failure the result is null and the buffer is the one given, reference count and
  link included. On a buffer whose region is a block of memory and whose window lies
  in it, the machine-word comparison, difference and sum are those of the numbers: no
  step wraps around.
\<close>

theorem reserve_headroom_contract:
  "(fst (reserve_headroom b n) \<noteq> None \<longleftrightarrow> n \<le> data_ptr b - buffer_start b)
   \<and> (n \<le> data_ptr b - buffer_start b \<longrightarrow>
        reserve_headroom b n
          = (Some (data_ptr b - n),
             b\<lparr>data_ptr := data_ptr b - n, data_len := data_len b + n\<rparr>))
   \<and> (\<not> n \<le> data_ptr b - buffer_start b \<longrightarrow> reserve_headroom b n = (None, b))
   \<and> (region_ok b \<and> window_inv b \<longrightarrow>
        (n \<le> data_ptr b - buffer_start b
           \<longleftrightarrow> unat n \<le> unat (data_ptr b) - unat (buffer_start b)) \<and>
        (n \<le> data_ptr b - buffer_start b \<longrightarrow>
           unat (data_ptr b - n) = unat (data_ptr b) - unat n \<and>
           unat (data_len b + n) = unat (data_len b) + unat n))"
proof -
  have 1: "fst (reserve_headroom b n) \<noteq> None \<longleftrightarrow> n \<le> data_ptr b - buffer_start b"
    by (auto simp: reserve_headroom_def Let_def)
  have 2: "n \<le> data_ptr b - buffer_start b \<Longrightarrow>
        reserve_headroom b n
          = (Some (data_ptr b - n),
             b\<lparr>data_ptr := data_ptr b - n, data_len := data_len b + n\<rparr>)"
    by (simp add: reserve_headroom_def Let_def not_less [symmetric])
  have 3: "\<not> n \<le> data_ptr b - buffer_start b \<Longrightarrow> reserve_headroom b n = (None, b)"
    by (auto simp: reserve_headroom_def Let_def)
  have 4: "n \<le> data_ptr b - buffer_start b
           \<longleftrightarrow> unat n \<le> unat (data_ptr b) - unat (buffer_start b)"
    if "window_inv b"
    using headroom_unat [OF that] by (simp add: word_le_nat_alt)
  have 5: "unat (data_ptr b - n) = unat (data_ptr b) - unat n \<and>
           unat (data_len b + n) = unat (data_len b) + unat n"
    if "region_ok b" "window_inv b" "n \<le> data_ptr b - buffer_start b"
    using reserve_headroom_unat [OF that(1,2)] 4 [OF that(2)] that(3) by blast
  show ?thesis
    using 1 2 3 4 5 by blast
qed

theorem reserve_headroom_contract_witness:
  "region_ok sample_buffer \<and> window_inv sample_buffer \<and>
   data_ptr sample_buffer - buffer_start sample_buffer = 32 \<and>
   reserve_headroom sample_buffer 10
     = (Some 4142, sample_buffer\<lparr>data_ptr := 4142, data_len := 10\<rparr>) \<and>
   unat (data_ptr sample_buffer - 10) = 4152 - 10 \<and>
   unat (data_len sample_buffer + 10) = 0 + 10 \<and>
   reserve_headroom sample_buffer 33 = (None, sample_buffer)"
proof -
  have ok: "region_ok sample_buffer" "window_inv sample_buffer"
    by (rule sample_buffer_ok)+
  have h: "data_ptr sample_buffer - buffer_start sample_buffer = 32"
    by (simp add: sample_buffer_def add_ref_def PacketBuffer_ctor_def)
  have a: "unat (data_ptr sample_buffer - 10) = 4152 - 10"
          "unat (data_len sample_buffer + 10) = 0 + 10"
    using reserve_headroom_contract [of sample_buffer 10] ok
    by (simp_all add: sample_buffer_unat h)
  have b: "reserve_headroom sample_buffer 33 = (None, sample_buffer)"
    using reserve_headroom_contract [of sample_buffer 33] by (simp add: h)
  have c: "reserve_headroom sample_buffer 10
     = (Some 4142, sample_buffer\<lparr>data_ptr := 4142, data_len := 10\<rparr>)"
    by (simp add: sample_buffer_def add_ref_def PacketBuffer_ctor_def reserve_headroom_def)
  show ?thesis
    by (intro conjI) (rule ok h a b c)+
qed

text \<open>
  C4. For every buffer in its initial window state and every sequence of
  \<open>set_data_len\<close>, \<open>reserve_headroom\<close> and \<open>reserve_tailroom\<close> with any arguments, after
  every operation of the sequence \<open>region_start \<le> data_ptr\<close> and
  \<open>data_ptr + data_len \<le> region_start + region_size\<close> hold, on the addresses as numbers,
  and the region is the one the buffer started with.
\<close>

theorem window_invariants_after_every_operation:
  assumes "region_ok b" and "initial_window b"
  shows "\<forall>b' \<in> set (run_ops ops b).
           unat (buffer_start b') \<le> unat (data_ptr b') \<and>
           unat (data_ptr b') + unat (data_len b')
             \<le> unat (buffer_start b') + unat (total_allocated_size b') \<and>
           buffer_start b' = buffer_start b \<and>
           total_allocated_size b' = total_allocated_size b"
  using run_ops_inv [OF assms(1) initial_window_inv [OF assms], of ops]
  by (auto simp: window_inv_def)

theorem window_invariants_after_every_operation_witness:
  "region_ok sample_buffer \<and> initial_window sample_buffer \<and>
   map (\<lambda>b. (unat (data_ptr b), unat (data_len b))) (run_ops sample_ops sample_buffer)
     = [(4152, 50), (4152, 129), (4142, 139), (4142, 139), (4142, 145), (4142, 145),
        (4142, 154)] \<and>
   list_all (\<lambda>b. unat (buffer_start b) \<le> unat (data_ptr b) \<and>
       unat (data_ptr b) + unat (data_len b)
         \<le> unat (buffer_start b) + unat (total_allocated_size b))
     (run_ops sample_ops sample_buffer)"
proof -
  have ok: "region_ok sample_buffer" "initial_window sample_buffer"
    by (rule sample_buffer_ok)+
  have run: "map (\<lambda>b. (unat (data_ptr b), unat (data_len b))) (run_ops sample_ops sample_buffer)
     = [(4152, 50), (4152, 129), (4142, 139), (4142, 139), (4142, 145), (4142, 145),
        (4142, 154)]"
    by (simp add: sample_ops_def sample_buffer_def add_ref_def PacketBuffer_ctor_def
        set_data_len_def reserve_headroom_def reserve_tailroom_def)
  have "list_all (\<lambda>b. unat (buffer_start b) \<le> unat (data_ptr b) \<and>
       unat (data_ptr b) + unat (data_len b)
         \<le> unat (buffer_start b) + unat (total_allocated_size b))
     (run_ops sample_ops sample_buffer)"
    using window_invariants_after_every_operation [OF ok, of sample_ops]
    by (auto simp: list_all_iff)
  then show ?thesis using ok run by simp
qed

text \<open>
  C2. The clamp law says that \<open>set_data_len (capacity + 1)\<close> on a fresh buffer leaves
  \<open>data_len = capacity\<close>. On the buffer of the test \<^verbatim>\<open>PacketBufferTest.DataManipulation\<close>,
  which has a tailroom of 16 bytes and a capacity of 128, the function stores 129: it
  clamps at the end of the region, which lies the tailroom past the payload.
\<close>

theorem set_data_len_past_capacity_with_tailroom:
  "capacity sample_buffer = 128 \<and>
   initial_window sample_buffer \<and>
   data_len (set_data_len sample_buffer (capacity sample_buffer + 1)) = 129"
  by (simp add: sample_buffer_def add_ref_def PacketBuffer_ctor_def capacity_def
      initial_window_def set_data_len_def)

section \<open>The claim about release\<close>

text \<open>
  C3, as amended. \<open>release\<close> is called with reference count exactly 1. For every buffer
  that has an owning pool, it resets the window to \<open>data_ptr = region_start + headroom\<close>,
  \<open>data_len = 0\<close> and no next buffer, sets the lifecycle state of the attached record (if
  one is attached) to \<open>Released\<close>, sets the reference count to 0, changes nothing else,
  and calls \<open>deallocate_buffer\<close> of the owning pool with the buffer as reset. For every
  buffer without an owning pool, it sets the reference count to 0 and does nothing else:
  window, link and record stay as they were and no pool is called.
\<close>

theorem release_last_reference_of_owned_buffer:
  assumes "ref_count b = 1"
  shows "(\<forall>pool. owning_pool b = Some pool \<longrightarrow>
           release b
             = (b\<lparr>ref_count := 0,
                   data_ptr := buffer_start b + headroom b,
                   data_len := 0,
                   next_ptr := None,
                   metadata := map_option (set_state Released) (metadata b)\<rparr>,
                Some (Deallocate_buffer pool (fst (release b)))) \<and>
           data_ptr (fst (release b)) = buffer_start b + headroom b \<and>
           data_len (fst (release b)) = 0 \<and>
           next_ptr (fst (release b)) = None \<and>
           map_option current_state (metadata (fst (release b)))
             = map_option (\<lambda>md. Released) (metadata b) \<and>
           snd (release b) = Some (Deallocate_buffer pool (fst (release b))) \<and>
           ref_count (fst (release b)) = 0 \<and>
           buffer_start (fst (release b)) = buffer_start b \<and>
           owning_pool (fst (release b)) = owning_pool b)
       \<and> (owning_pool b = None \<longrightarrow> release b = (b\<lparr>ref_count := 0\<rparr>, None))"
proof -
  have orphan: "owning_pool b = None \<Longrightarrow> release b = (b\<lparr>ref_count := 0\<rparr>, None)"
    using assms by (simp add: release_def Let_def)
  have owned: "release b
             = (b\<lparr>ref_count := 0,
                   data_ptr := buffer_start b + headroom b,
                   data_len := 0,
                   next_ptr := None,
                   metadata := map_option (set_state Released) (metadata b)\<rparr>,
                Some (Deallocate_buffer pool
                  (b\<lparr>ref_count := 0,
                     data_ptr := buffer_start b + headroom b,
                     data_len := 0,
                     next_ptr := None,
                     metadata := map_option (set_state Released) (metadata b)\<rparr>)))"
    if "owning_pool b = Some pool" for pool
    using assms that by (cases "metadata b") (simp_all add: release_def Let_def)
  have fields: "map_option current_state (map_option (set_state Released) (metadata b))
                  = map_option (\<lambda>md. Released) (metadata b)"
    by (cases "metadata b") (simp_all add: set_state_def)
  show ?thesis
    using orphan owned fields by (auto simp: option.map_comp comp_def set_state_def)
qed

theorem release_last_reference_of_owned_buffer_witness:
  "ref_count owned_buffer = 1 \<and> owning_pool owned_buffer = Some (- 1, 128) \<and>
   data_ptr owned_buffer = 4147 \<and> data_len owned_buffer = 15 \<and>
   next_ptr owned_buffer = Some 8000 \<and>
   data_ptr (fst (release owned_buffer)) = 4152 \<and>
   data_len (fst (release owned_buffer)) = 0 \<and>
   next_ptr (fst (release owned_buffer)) = None \<and>
   map_option current_state (metadata (fst (release owned_buffer))) = Some Released \<and>
   snd (release owned_buffer) = Some (Deallocate_buffer (- 1, 128) (fst (release owned_buffer))) \<and>
   ref_count orphan_buffer = 1 \<and> owning_pool orphan_buffer = None \<and>
   release orphan_buffer = (orphan_buffer\<lparr>ref_count := 0\<rparr>, None)"
proof -
  have pre: "ref_count owned_buffer = 1" "owning_pool owned_buffer = Some (- 1, 128)"
    by (simp_all add: owned_buffer_def set_next_buffer_def reserve_headroom_def
        set_data_len_def add_ref_def PacketBuffer_ctor_def)
  have vals: "data_ptr owned_buffer = 4147" "data_len owned_buffer = 15"
    "next_ptr owned_buffer = Some 8000" "buffer_start owned_buffer = 4120"
    "headroom owned_buffer = 32"
    "map_option current_state (metadata owned_buffer) = Some Free"
    by (simp_all add: owned_buffer_def set_next_buffer_def reserve_headroom_def
        set_data_len_def add_ref_def PacketBuffer_ctor_def BufferMetadata_ctor_def)
  have md: "metadata owned_buffer \<noteq> None" using vals(6) by auto
  have opre: "ref_count orphan_buffer = 1" "owning_pool orphan_buffer = None"
    by (simp_all add: orphan_buffer_def sample_buffer_def set_next_buffer_def set_data_len_def
        add_ref_def PacketBuffer_ctor_def)
  have o: "release orphan_buffer = (orphan_buffer\<lparr>ref_count := 0\<rparr>, None)"
    using release_last_reference_of_owned_buffer [OF opre(1)] opre(2) by blast
  have w: "data_ptr (fst (release owned_buffer)) = 4152"
    "data_len (fst (release owned_buffer)) = 0"
    "next_ptr (fst (release owned_buffer)) = None"
    "map_option current_state (metadata (fst (release owned_buffer))) = Some Released"
    "snd (release owned_buffer) = Some (Deallocate_buffer (- 1, 128) (fst (release owned_buffer)))"
    using release_last_reference_of_owned_buffer [OF pre(1)] pre(2) vals md by auto
  show ?thesis
    by (intro conjI) (rule pre vals(1-3) w opre o)+
qed

text \<open>
  C3, as stated, fails for a buffer without an owning pool: its last release leaves the
  window, the link and the lifecycle state as they were and calls no pool.
\<close>

theorem release_last_reference_of_orphan_buffer:
  "ref_count orphan_buffer = 1 \<and> owning_pool orphan_buffer = None \<and>
   data_len (fst (release orphan_buffer)) = 10 \<and>
   next_ptr (fst (release orphan_buffer)) = Some 8000 \<and>
   map_option current_state (metadata (fst (release orphan_buffer))) = Some Free \<and>
   snd (release orphan_buffer) = None"
  by (simp add: orphan_buffer_def sample_buffer_def set_next_buffer_def set_data_len_def
      add_ref_def PacketBuffer_ctor_def BufferMetadata_ctor_def release_def)

section \<open>The claims about the pool manager\<close>

text \<open>
  C5. For every state of the registry and every request, \<open>allocate\<close> asks the pool that
  \<open>find_pool\<close> selects, and only that pool: the pool with the smallest size class not
  below the requested size among the pools of the requested node; when the node has no
  such pool and is not the global node \<open>-1\<close>, the pool with the smallest size class not
  below the requested size among the pools of the global node; and when no pool is
  found, the result is null and the manager is unchanged.
\<close>

theorem allocate_selects_best_fit:
  assumes "registry_ok mgr"
  shows "(case find_pool mgr s node of
            Some (a, k) \<Rightarrow>
              k \<in> size_classes mgr a \<and> s \<le> k \<and>
              (\<forall>k' \<in> size_classes mgr a. s \<le> k' \<longrightarrow> k \<le> k') \<and>
              (a = node \<or>
               (node \<noteq> - 1 \<and> a = - 1 \<and> (\<forall>k' \<in> size_classes mgr node. k' < s)))
          | None \<Rightarrow>
              (\<forall>k' \<in> size_classes mgr node. k' < s) \<and>
              (node \<noteq> - 1 \<longrightarrow> (\<forall>k' \<in> size_classes mgr (- 1). k' < s)))
       \<and> (case find_pool mgr s node of
            Some p \<Rightarrow>
              (case pool_at mgr p of
                 Some pool_object \<Rightarrow>
                   allocate ab mgr s node
                     = (fst (ab pool_object), store_pool mgr p (snd (ab pool_object)))
               | None \<Rightarrow> False)
          | None \<Rightarrow> allocate ab mgr s node = (None, mgr))"
proof -
  have "case find_pool mgr s node of
            Some p \<Rightarrow>
              (case pool_at mgr p of
                 Some pool_object \<Rightarrow>
                   allocate ab mgr s node
                     = (fst (ab pool_object), store_pool mgr p (snd (ab pool_object)))
               | None \<Rightarrow> False)
          | None \<Rightarrow> allocate ab mgr s node = (None, mgr)"
  proof (cases "find_pool mgr s node")
    case None
    then show ?thesis by (simp add: allocate_no_pool)
  next
    case (Some p)
    then obtain obj where "pool_at mgr p = Some obj"
      using find_pool_points_to_pool by blast
    then show ?thesis using Some by (simp add: allocate_unfold)
  qed
  then show ?thesis
    using find_pool_best_fit [OF assms, where s = s and node = node] by blast
qed

theorem allocate_selects_best_fit_witness:
  "registry_ok sample_manager \<and>
   size_classes sample_manager 0 = {128, 512, 1024} \<and>
   size_classes sample_manager (- 1) = {1024} \<and>
   size_classes sample_manager 3 = {} \<and>
   find_pool sample_manager 100 0 = Some (0, 128) \<and>
   find_pool sample_manager 129 0 = Some (0, 512) \<and>
   find_pool sample_manager 600 3 = Some (- 1, 1024) \<and>
   find_pool sample_manager 2048 0 = None \<and>
   allocate allocate_buffer sample_manager 2048 0 = (None, sample_manager)"
proof -
  have ok: "registry_ok sample_manager" by (rule registry_ok_sample)
  have sc: "size_classes sample_manager 0 = {128, 512, 1024}"
    "size_classes sample_manager (- 1) = {1024}"
    "size_classes sample_manager 3 = {}"
    by code_simp+
  have f: "find_pool sample_manager 100 0 = Some (0, 128)"
    "find_pool sample_manager 129 0 = Some (0, 512)"
    "find_pool sample_manager 600 3 = Some (- 1, 1024)"
    "find_pool sample_manager 2048 0 = None"
    by code_simp+
  have "allocate allocate_buffer sample_manager 2048 0 = (None, sample_manager)"
    using allocate_selects_best_fit [OF ok, where s = 2048 and node = 0 and ab = allocate_buffer]
    by (simp add: f)
  then show ?thesis
    using ok sc f by (intro conjI)
qed

text \<open>
  C1, as amended. With pools of 128, 512 and 1024 bytes registered on node 0 and a pool
  of 1024 bytes on the global node, the 128-byte and the 1024-byte pool of node 0 holding
  at least one unit, \<open>allocate 100 0\<close> yields a buffer of capacity at least 128 with
  affinity 0; \<open>allocate 600 0\<close> yields a buffer of capacity at least 1024 from the
  1024-byte pool of node 0, with affinity 0; and \<open>allocate 2048 0\<close> yields null. The pools
  are those of any implementation in which a pool constructed with at least one unit
  hands out a buffer of the pool's payload size, node and ownership.
\<close>

theorem size_class_fallback_example:
  assumes "\<And>self payload unit_count node hr tr pool.
             new_pool self payload unit_count node hr tr = Inr pool \<Longrightarrow> unit_count \<noteq> 0 \<Longrightarrow>
             \<exists>b pool'. ab pool = (Some b, pool') \<and> capacity b = payload \<and>
               get_numa_node b = node \<and> owning_pool b = Some self"
      and "configure_pools_for_numa_node new_pool PoolManager_ctor 0 [c128, c512, c1024]
             = (True, m1)"
      and "configure_pools_for_numa_node new_pool m1 (- 1) [g1024] = (True, m2)"
      and "buffer_size c128 = 128" and "buffer_size c512 = 512"
      and "buffer_size c1024 = 1024" and "buffer_size g1024 = 1024"
      and "initial_count c128 \<noteq> 0" and "initial_count c1024 \<noteq> 0"
  shows "(case fst (allocate ab m2 100 0) of
            Some b \<Rightarrow> 128 \<le> capacity b \<and> get_numa_node b = 0
          | None \<Rightarrow> False)
       \<and> (case fst (allocate ab m2 600 0) of
            Some b \<Rightarrow> 1024 \<le> capacity b \<and> get_numa_node b = 0 \<and>
                      owning_pool b = Some (0, 1024)
          | None \<Rightarrow> False)
       \<and> fst (allocate ab m2 2048 0) = None"
proof -
  from fresh_registry [OF assms(2-7)] obtain p1 p2 p3 q where
    c1: "construct new_pool 0 c128 = Inr p1" and c3: "construct new_pool 0 c1024 = Inr p3" and
    m2: "numa_pools m2 = [(- 1, [(1024, q)]), (0, [(128, p1), (512, p2), (1024, p3)])]"
    by blast
  have f100: "find_pool m2 100 0 = Some (0, 128)" and at100: "pool_at m2 (0, 128) = Some p1"
    and f600: "find_pool m2 600 0 = Some (0, 1024)" and at600: "pool_at m2 (0, 1024) = Some p3"
    and f2048: "find_pool m2 2048 0 = None"
    by (simp_all add: find_pool_def pool_at_def m2)
  from assms(1) [OF c1 [unfolded construct_def] assms(8)] obtain b1 where
    "fst (ab p1) = Some b1" "capacity b1 = 128" "get_numa_node b1 = 0"
    by (auto simp: assms(4))
  then have A: "case fst (allocate ab m2 100 0) of
            Some b \<Rightarrow> 128 \<le> capacity b \<and> get_numa_node b = 0 | None \<Rightarrow> False"
    by (simp add: allocate_unfold [OF f100 at100])
  from assms(1) [OF c3 [unfolded construct_def] assms(9)] obtain b3 where
    "fst (ab p3) = Some b3" "capacity b3 = 1024" "get_numa_node b3 = 0"
    "owning_pool b3 = Some (0, 1024)"
    by (auto simp: assms(6))
  then have B: "case fst (allocate ab m2 600 0) of
            Some b \<Rightarrow> 1024 \<le> capacity b \<and> get_numa_node b = 0 \<and>
                      owning_pool b = Some (0, 1024) | None \<Rightarrow> False"
    by (simp add: allocate_unfold [OF f600 at600])
  have C: "fst (allocate ab m2 2048 0) = None"
    by (simp add: allocate_no_pool [OF f2048])
  show ?thesis using A B C by blast
qed

theorem size_class_fallback_example_witness:
  "configure_pools_for_numa_node (PacketBufferPool_ctor sample_host) PoolManager_ctor 0
     [pool_config 128 1 32 0, pool_config 512 2 64 0, pool_config 1024 1 64 0]
     = (True, node0_manager) \<and>
   configure_pools_for_numa_node (PacketBufferPool_ctor sample_host) node0_manager (- 1)
     [pool_config 1024 2 128 0]
     = (True, sample_manager) \<and>
   map_option capacity (fst (allocate allocate_buffer sample_manager 100 0)) = Some 128 \<and>
   map_option get_numa_node (fst (allocate allocate_buffer sample_manager 100 0)) = Some 0 \<and>
   map_option capacity (fst (allocate allocate_buffer sample_manager 600 0)) = Some 1024 \<and>
   map_option get_numa_node (fst (allocate allocate_buffer sample_manager 600 0)) = Some 0 \<and>
   map_option owning_pool (fst (allocate allocate_buffer sample_manager 600 0))
     = Some (Some (0, 1024)) \<and>
   fst (allocate allocate_buffer sample_manager 2048 0) = None"
proof -
  have r: "configure_pools_for_numa_node (PacketBufferPool_ctor sample_host) PoolManager_ctor 0
     [pool_config 128 1 32 0, pool_config 512 2 64 0, pool_config 1024 1 64 0]
     = (True, node0_manager)"
    "configure_pools_for_numa_node (PacketBufferPool_ctor sample_host) node0_manager (- 1)
     [pool_config 1024 2 128 0]
     = (True, sample_manager)"
    using sample_registration by (simp_all add: node0_configs_def global_configs_def)
  have v: "map_option capacity (fst (allocate allocate_buffer sample_manager 100 0)) = Some 128"
    "map_option get_numa_node (fst (allocate allocate_buffer sample_manager 100 0)) = Some 0"
    "map_option capacity (fst (allocate allocate_buffer sample_manager 600 0)) = Some 1024"
    "map_option get_numa_node (fst (allocate allocate_buffer sample_manager 600 0)) = Some 0"
    "map_option owning_pool (fst (allocate allocate_buffer sample_manager 600 0))
       = Some (Some (0, 1024))"
    by code_simp+
  have "fst (allocate allocate_buffer sample_manager 2048 0) = None"
    using size_class_fallback_example
      [where new_pool = "PacketBufferPool_ctor sample_host" and ab = allocate_buffer,
       OF modelled_pool_contract r]
    by (simp add: pool_config_def)
  then show ?thesis
    by (intro conjI) (rule r v)+
qed

text \<open>
  C1, as stated, says that the request for 600 bytes on node 0 is served from the global
  node with affinity \<open>-1\<close>. Node 0 has a pool of 1024 bytes, so \<open>find_pool\<close> stops there:
  the buffer has affinity 0 and the global pool keeps both its units.
\<close>

theorem allocate_600_on_node_0_is_served_by_node_0:
  "configure_pools_for_numa_node (PacketBufferPool_ctor sample_host) PoolManager_ctor 0
     [pool_config 128 1 32 0, pool_config 512 2 64 0, pool_config 1024 1 64 0]
     = (True, node0_manager) \<and>
   configure_pools_for_numa_node (PacketBufferPool_ctor sample_host) node0_manager (- 1)
     [pool_config 1024 2 128 0]
     = (True, sample_manager) \<and>
   find_pool sample_manager 600 0 = Some (0, 1024) \<and>
   map_option get_numa_node (fst (allocate allocate_buffer sample_manager 600 0)) = Some 0 \<and>
   map_option get_numa_node (fst (allocate allocate_buffer sample_manager 600 0))
     \<noteq> Some (- 1) \<and>
   map_option owning_pool (fst (allocate allocate_buffer sample_manager 600 0))
     = Some (Some (0, 1024)) \<and>
   map_option (\<lambda>p. length (free_list p))
     (pool_at (snd (allocate allocate_buffer sample_manager 600 0)) (- 1, 1024)) = Some 2"
proof -
  have r: "configure_pools_for_numa_node (PacketBufferPool_ctor sample_host) PoolManager_ctor 0
     [pool_config 128 1 32 0, pool_config 512 2 64 0, pool_config 1024 1 64 0]
     = (True, node0_manager)"
    "configure_pools_for_numa_node (PacketBufferPool_ctor sample_host) node0_manager (- 1)
     [pool_config 1024 2 128 0]
     = (True, sample_manager)"
    using sample_registration by (simp_all add: node0_configs_def global_configs_def)
  have v: "find_pool sample_manager 600 0 = Some (0, 1024)"
    "map_option get_numa_node (fst (allocate allocate_buffer sample_manager 600 0)) = Some 0"
    "map_option owning_pool (fst (allocate allocate_buffer sample_manager 600 0))
       = Some (Some (0, 1024))"
    "map_option (\<lambda>p. length (free_list p))
       (pool_at (snd (allocate allocate_buffer sample_manager 600 0)) (- 1, 1024)) = Some 2"
    by code_simp+
  have n: "map_option get_numa_node (fst (allocate allocate_buffer sample_manager 600 0))
             \<noteq> Some (- 1)"
    by (simp add: v(2))
  show ?thesis
    by (intro conjI) (rule r v n)+
qed

text \<open>
  C8. When the pool that \<open>find_pool\<close> selects returns null from \<open>allocate_buffer\<close>,
  \<open>allocate\<close> returns null, as it does when no pool matches, and asks no other pool: the
  manager holds what that one call left of the selected pool and every other pool as it
  was. A pool that is left as it was by its failed call leaves the manager as it was.
\<close>

theorem allocate_from_exhausted_pool_is_null:
  assumes "registry_ok mgr"
      and "find_pool mgr s node = Some p"
      and "pool_at mgr p = Some pool_object"
      and "fst (ab pool_object) = None"
  shows "fst (allocate ab mgr s node) = None \<and>
         snd (allocate ab mgr s node) = store_pool mgr p (snd (ab pool_object)) \<and>
         (\<forall>p'. p' \<noteq> p \<longrightarrow> pool_at (snd (allocate ab mgr s node)) p' = pool_at mgr p') \<and>
         (snd (ab pool_object) = pool_object \<longrightarrow> allocate ab mgr s node = (None, mgr)) \<and>
         (\<forall>s' node'. find_pool mgr s' node' = None \<longrightarrow> allocate ab mgr s' node' = (None, mgr))"
proof -
  have a: "allocate ab mgr s node = (None, store_pool mgr p (snd (ab pool_object)))"
    using assms(2-4) by (simp add: allocate_unfold)
  have b: "snd (ab pool_object) = pool_object \<Longrightarrow> allocate ab mgr s node = (None, mgr)"
    using a assms(1,3) by (simp add: store_pool_same)
  show ?thesis
    using a b by (simp add: pool_at_store_pool_other allocate_no_pool)
qed

theorem allocate_from_exhausted_pool_is_null_witness:
  "registry_ok exhausted_manager \<and>
   find_pool exhausted_manager 100 0 = Some (0, 128) \<and>
   map_option free_list (pool_at exhausted_manager (0, 128)) = Some [] \<and>
   map_option (\<lambda>p. length (free_list p)) (pool_at exhausted_manager (0, 512)) = Some 2 \<and>
   map_option (\<lambda>p. length (free_list p)) (pool_at exhausted_manager (- 1, 1024)) = Some 2 \<and>
   allocate allocate_buffer exhausted_manager 100 0 = (None, exhausted_manager) \<and>
   find_pool exhausted_manager 2048 0 = None \<and>
   allocate allocate_buffer exhausted_manager 2048 0 = (None, exhausted_manager)"
proof -
  have ok: "registry_ok exhausted_manager"
    unfolding exhausted_manager_def using registry_ok_sample by (rule registry_ok_allocate)
  have f: "find_pool exhausted_manager 100 0 = Some (0, 128)"
    "find_pool exhausted_manager 2048 0 = None"
    by code_simp+
  have fl: "map_option free_list (pool_at exhausted_manager (0, 128)) = Some []"
    "map_option (\<lambda>p. length (free_list p)) (pool_at exhausted_manager (0, 512)) = Some 2"
    "map_option (\<lambda>p. length (free_list p)) (pool_at exhausted_manager (- 1, 1024)) = Some 2"
    by code_simp+
  from fl(1) obtain obj where obj: "pool_at exhausted_manager (0, 128) = Some obj"
    and empty: "free_list obj = []"
    by auto
  have none: "fst (allocate_buffer obj) = None" "snd (allocate_buffer obj) = obj"
    by (simp_all add: allocate_buffer_def empty)
  have a: "allocate allocate_buffer exhausted_manager 100 0 = (None, exhausted_manager)"
    "allocate allocate_buffer exhausted_manager 2048 0 = (None, exhausted_manager)"
    using allocate_from_exhausted_pool_is_null
      [where ab = allocate_buffer, OF ok f(1) obj none(1)] none(2) f(2)
    by simp_all
  show ?thesis
    by (intro conjI) (rule ok f fl a)+
qed

text \<open>
  C9. When the construction of the pool for a config fails, \<open>configure_pools_for_numa_node\<close>
  returns \<open>False\<close> and the registry is the one the configs before the failing one left:
  no config after it is looked at. \<open>add_pool\<close> is the call with that one config. The
  result is a \<open>bool\<close>, whereas exhaustion at run time is the null result of \<open>allocate\<close>.
\<close>

theorem configure_stops_at_failed_construction:
  assumes "new_pool (node, buffer_size c) (buffer_size c) (initial_count c)
             node (cfg_headroom c) (cfg_tailroom c) = Inl e"
      and "fst (configure_pools_for_numa_node new_pool mgr node pre)"
      and "buffer_size c
             \<notin> size_classes (snd (configure_pools_for_numa_node new_pool mgr node pre)) node"
  shows "configure_pools_for_numa_node new_pool mgr node (pre @ c # post)
           = (False, snd (configure_pools_for_numa_node new_pool mgr node pre))
       \<and> (pre = [] \<and> post = [] \<longrightarrow>
            add_pool new_pool mgr node c
              = (False, snd (configure_pools_for_numa_node new_pool mgr node [])))"
proof -
  have c: "construct new_pool node c = Inl e"
    using assms(1) by (simp add: construct_def)
  have fresh: "buffer_size c
      \<notin> set (map_keys (snd (configure_loop new_pool node pre (tier_of mgr node))))"
    using assms(3) by (simp add: size_classes_tier_of tier_of_configure)
  have "configure_loop new_pool node (c # post)
          (snd (configure_loop new_pool node pre (tier_of mgr node)))
          = (False, snd (configure_loop new_pool node pre (tier_of mgr node)))"
    using c fresh by (simp add: configure_loop_Cons)
  then have main: "configure_pools_for_numa_node new_pool mgr node (pre @ c # post)
           = (False, snd (configure_pools_for_numa_node new_pool mgr node pre))"
    using assms(2) by (simp add: configure_append tier_of_configure) (simp add: configure_unfold)
  then show ?thesis
    by (auto simp: add_pool_def)
qed

theorem configure_stops_at_failed_construction_witness:
  "fst (configure_pools_for_numa_node (PacketBufferPool_ctor sample_host) sample_manager 0
     [pool_config 256 1 16 0]) \<and>
   PacketBufferPool_ctor sample_host (0, 64) 64 4 0 0 0 = Inl Bad_alloc \<and>
   configure_pools_for_numa_node (PacketBufferPool_ctor sample_host) sample_manager 0
     [pool_config 256 1 16 0, pool_config 64 4 0 0, pool_config 2048 1 0 0]
     = (False, snd (configure_pools_for_numa_node (PacketBufferPool_ctor sample_host)
                      sample_manager 0 [pool_config 256 1 16 0])) \<and>
   size_classes (snd (configure_pools_for_numa_node (PacketBufferPool_ctor sample_host)
     sample_manager 0
     [pool_config 256 1 16 0, pool_config 64 4 0 0, pool_config 2048 1 0 0])) 0
     = {128, 256, 512, 1024} \<and>
   fst (configure_pools_for_numa_node (PacketBufferPool_ctor sample_host) sample_manager 0
     [pool_config 2048 1 0 0]) \<and>
   fst (add_pool (PacketBufferPool_ctor sample_host) sample_manager 0 (pool_config 64 4 0 0))
     = False"
proof -
  let ?mk = "PacketBufferPool_ctor sample_host"
  have pre: "fst (configure_pools_for_numa_node ?mk sample_manager 0 [pool_config 256 1 16 0])"
    by code_simp
  have fail: "?mk (0, 64) 64 4 0 0 0 = Inl Bad_alloc"
    by (simp add: PacketBufferPool_ctor_def sample_host_def)
  have fresh: "64 \<notin> size_classes (snd (configure_pools_for_numa_node ?mk sample_manager 0
                      [pool_config 256 1 16 0])) 0"
    by code_simp
  have fresh0: "64 \<notin> size_classes (snd (configure_pools_for_numa_node ?mk sample_manager 0
                      [])) 0"
    by code_simp
  have pre0: "fst (configure_pools_for_numa_node ?mk sample_manager 0 [])"
    by code_simp
  have main: "configure_pools_for_numa_node ?mk sample_manager 0
     [pool_config 256 1 16 0, pool_config 64 4 0 0, pool_config 2048 1 0 0]
     = (False, snd (configure_pools_for_numa_node ?mk sample_manager 0
                      [pool_config 256 1 16 0]))"
    using configure_stops_at_failed_construction
      [where new_pool = ?mk and node = 0 and c = "pool_config 64 4 0 0" and e = Bad_alloc
         and mgr = sample_manager and pre = "[pool_config 256 1 16 0]"
         and post = "[pool_config 2048 1 0 0]"]
      pre fail fresh
    by (simp add: pool_config_def)
  have "size_classes (snd (configure_pools_for_numa_node ?mk sample_manager 0
                      [pool_config 256 1 16 0])) 0 = {128, 256, 512, 1024}"
    by code_simp
  then have sc: "size_classes (snd (configure_pools_for_numa_node ?mk sample_manager 0
     [pool_config 256 1 16 0, pool_config 64 4 0 0, pool_config 2048 1 0 0])) 0
     = {128, 256, 512, 1024}"
    by (simp add: main)
  have later: "fst (configure_pools_for_numa_node ?mk sample_manager 0 [pool_config 2048 1 0 0])"
    by code_simp
  have "add_pool ?mk sample_manager 0 (pool_config 64 4 0 0)
          = (False, snd (configure_pools_for_numa_node ?mk sample_manager 0 []))"
    using configure_stops_at_failed_construction
      [where new_pool = ?mk and node = 0 and c = "pool_config 64 4 0 0" and e = Bad_alloc
         and mgr = sample_manager and pre = "[]" and post = "[]"]
      pre0 fail fresh0
    by (simp add: pool_config_def)
  then have ap: "fst (add_pool ?mk sample_manager 0 (pool_config 64 4 0 0)) = False"
    by simp
  show ?thesis
    by (intro conjI) (rule pre fail main sc later ap)+
qed

text \<open>
  C10. A config whose size class is registered for the node when the loop reaches it,
  whether before the call or by an earlier config of the same call, is skipped: the call
  gives the same result and registry as the call without that config, so the configs
  after it are still processed, and the pool under the key after the call is the one
  that was there when the config was reached. A pool registered before the call is still
  there after any configs, and \<open>add_pool\<close> with a config of its size class returns \<open>True\<close>
  and changes nothing.
\<close>

theorem configure_skips_registered_size_class:
  "(pool_at (snd (configure_pools_for_numa_node new_pool mgr node pre)) (node, buffer_size c)
      = Some p \<longrightarrow>
      configure_pools_for_numa_node new_pool mgr node (pre @ c # post)
        = configure_pools_for_numa_node new_pool mgr node (pre @ post) \<and>
      pool_at (snd (configure_pools_for_numa_node new_pool mgr node (pre @ c # post)))
        (node, buffer_size c) = Some p)
   \<and> (pool_at mgr (node, buffer_size c) = Some p \<longrightarrow>
      pool_at (snd (configure_pools_for_numa_node new_pool mgr node pre)) (node, buffer_size c)
        = Some p \<and>
      (registry_ok mgr \<longrightarrow> add_pool new_pool mgr node c = (True, mgr)))"
proof -
  have reached:
    "configure_pools_for_numa_node new_pool mgr node (pre @ c # post)
        = configure_pools_for_numa_node new_pool mgr node (pre @ post) \<and>
     pool_at (snd (configure_pools_for_numa_node new_pool mgr node (pre @ c # post)))
        (node, buffer_size c) = Some p"
    if "pool_at (snd (configure_pools_for_numa_node new_pool mgr node pre)) (node, buffer_size c)
      = Some p"
  proof -
    obtain ok pools' where pre: "configure_loop new_pool node pre (tier_of mgr node) = (ok, pools')"
      by (cases "configure_loop new_pool node pre (tier_of mgr node)")
    have after_pre: "map_find pools' (buffer_size c) = Some p"
      using that pre by (simp add: pool_at_tier_of tier_of_configure)
    then have dup: "buffer_size c \<in> set (map_keys pools')"
      by (rule map_find_Some_keys)
    have loop: "configure_loop new_pool node (pre @ c # post) (tier_of mgr node)
          = configure_loop new_pool node (pre @ post) (tier_of mgr node)"
      using dup pre by (simp add: configure_loop_append configure_loop_Cons)
    have 1: "configure_pools_for_numa_node new_pool mgr node (pre @ c # post)
           = configure_pools_for_numa_node new_pool mgr node (pre @ post)"
      by (simp add: configure_unfold loop)
    have "map_find (snd (configure_loop new_pool node (pre @ post) (tier_of mgr node)))
            (buffer_size c) = Some p"
      using after_pre configure_loop_keeps [OF after_pre, of new_pool node post] pre
      by (simp add: configure_loop_append)
    then have 2: "pool_at (snd (configure_pools_for_numa_node new_pool mgr node (pre @ c # post)))
            (node, buffer_size c) = Some p"
      by (simp add: pool_at_tier_of tier_of_configure loop)
    show ?thesis using 1 2 by blast
  qed
  have before:
    "pool_at (snd (configure_pools_for_numa_node new_pool mgr node pre)) (node, buffer_size c)
        = Some p \<and>
     (registry_ok mgr \<longrightarrow> add_pool new_pool mgr node c = (True, mgr))"
    if "pool_at mgr (node, buffer_size c) = Some p"
  proof -
    note registered = that
    have start: "map_find (tier_of mgr node) (buffer_size c) = Some p"
      using registered by (simp add: pool_at_tier_of)
    have 1: "pool_at (snd (configure_pools_for_numa_node new_pool mgr node pre))
               (node, buffer_size c) = Some p"
      using configure_loop_keeps [OF start] by (simp add: pool_at_tier_of tier_of_configure)
    obtain tier where tier: "map_find (numa_pools mgr) node = Some tier"
      using registered by (auto simp: pool_at_def split: option.splits)
    have 2: "add_pool new_pool mgr node c = (True, mgr)" if "registry_ok mgr"
    proof -
      have "map_assign (numa_pools mgr) node tier = numa_pools mgr"
        using that tier by (simp add: registry_ok_def map_assign_same)
      then show ?thesis
        using start tier map_find_Some_keys [OF start]
        by (simp add: add_pool_def configure_unfold configure_loop_Cons tier_of_def)
    qed
    show ?thesis using 1 2 by blast
  qed
  show ?thesis using reached before by blast
qed

theorem configure_skips_registered_size_class_witness:
  "registry_ok sample_manager \<and>
   map_option initial_pool_count (pool_at sample_manager (0, 128)) = Some 1 \<and>
   configure_pools_for_numa_node (PacketBufferPool_ctor sample_host) sample_manager 0
     [pool_config 128 7 16 8, pool_config 256 1 16 0]
     = configure_pools_for_numa_node (PacketBufferPool_ctor sample_host) sample_manager 0
         [pool_config 256 1 16 0] \<and>
   pool_at (snd (configure_pools_for_numa_node (PacketBufferPool_ctor sample_host)
     sample_manager 0 [pool_config 128 7 16 8, pool_config 256 1 16 0])) (0, 128)
     = pool_at sample_manager (0, 128) \<and>
   size_classes (snd (configure_pools_for_numa_node (PacketBufferPool_ctor sample_host)
     sample_manager 0 [pool_config 128 7 16 8, pool_config 256 1 16 0])) 0
     = {128, 256, 512, 1024} \<and>
   add_pool (PacketBufferPool_ctor sample_host) sample_manager 0 (pool_config 128 7 16 8)
     = (True, sample_manager) \<and>
   pool_at sample_manager (0, 256) = None \<and>
   map_option initial_pool_count
     (pool_at (snd (configure_pools_for_numa_node (PacketBufferPool_ctor sample_host)
        sample_manager 0 [pool_config 256 1 16 0])) (0, 256)) = Some 1 \<and>
   configure_pools_for_numa_node (PacketBufferPool_ctor sample_host) sample_manager 0
     [pool_config 256 1 16 0, pool_config 256 9 0 0, pool_config 2048 1 0 0]
     = configure_pools_for_numa_node (PacketBufferPool_ctor sample_host) sample_manager 0
         [pool_config 256 1 16 0, pool_config 2048 1 0 0] \<and>
   map_option initial_pool_count
     (pool_at (snd (configure_pools_for_numa_node (PacketBufferPool_ctor sample_host)
        sample_manager 0
        [pool_config 256 1 16 0, pool_config 256 9 0 0, pool_config 2048 1 0 0])) (0, 256))
     = Some 1 \<and>
   size_classes (snd (configure_pools_for_numa_node (PacketBufferPool_ctor sample_host)
     sample_manager 0
     [pool_config 256 1 16 0, pool_config 256 9 0 0, pool_config 2048 1 0 0])) 0
     = {128, 256, 512, 1024, 2048}"
proof -
  let ?mk = "PacketBufferPool_ctor sample_host"
  have ok: "registry_ok sample_manager" by (rule registry_ok_sample)
  have cnt: "map_option initial_pool_count (pool_at sample_manager (0, 128)) = Some 1"
    by code_simp
  then obtain p where p: "pool_at sample_manager (0, 128) = Some p" by auto
  have bs: "buffer_size (pool_config 128 7 16 8) = 128"
    by (simp add: pool_config_def)
  have p': "pool_at sample_manager (0, buffer_size (pool_config 128 7 16 8)) = Some p"
    using p by (simp add: bs)
  note t = configure_skips_registered_size_class
      [where new_pool = ?mk and mgr = sample_manager and node = 0
         and c = "pool_config 128 7 16 8" and p = p and pre = "[]"
         and post = "[pool_config 256 1 16 0]"]
  have t1: "pool_at (snd (configure_pools_for_numa_node ?mk sample_manager 0 []))
              (0, buffer_size (pool_config 128 7 16 8)) = Some p"
    using t p' by blast
  have a: "configure_pools_for_numa_node ?mk sample_manager 0
     [pool_config 128 7 16 8, pool_config 256 1 16 0]
     = configure_pools_for_numa_node ?mk sample_manager 0 [pool_config 256 1 16 0]"
    using t t1 by simp
  have b: "pool_at (snd (configure_pools_for_numa_node ?mk sample_manager 0
     [pool_config 128 7 16 8, pool_config 256 1 16 0])) (0, 128)
     = pool_at sample_manager (0, 128)"
  proof -
    have "pool_at (snd (configure_pools_for_numa_node ?mk sample_manager 0
       ([] @ pool_config 128 7 16 8 # [pool_config 256 1 16 0])))
       (0, buffer_size (pool_config 128 7 16 8)) = Some p"
      using t t1 by blast
    then show ?thesis
      unfolding bs p by simp
  qed
  have c: "add_pool ?mk sample_manager 0 (pool_config 128 7 16 8) = (True, sample_manager)"
    using t p' ok by blast
  have sc: "size_classes (snd (configure_pools_for_numa_node ?mk sample_manager 0
     [pool_config 128 7 16 8, pool_config 256 1 16 0])) 0 = {128, 256, 512, 1024}"
    by code_simp
  have fresh: "pool_at sample_manager (0, 256) = None"
    by code_simp
  have cnt2: "map_option initial_pool_count
     (pool_at (snd (configure_pools_for_numa_node ?mk sample_manager 0
        [pool_config 256 1 16 0])) (0, 256)) = Some 1"
    by code_simp
  then obtain q where q: "pool_at (snd (configure_pools_for_numa_node ?mk sample_manager 0
        [pool_config 256 1 16 0])) (0, 256) = Some q" and q1: "initial_pool_count q = 1"
    by auto
  have bs2: "buffer_size (pool_config 256 9 0 0) = 256"
    by (simp add: pool_config_def)
  note u = configure_skips_registered_size_class
      [where new_pool = ?mk and mgr = sample_manager and node = 0
         and c = "pool_config 256 9 0 0" and p = q and pre = "[pool_config 256 1 16 0]"
         and post = "[pool_config 2048 1 0 0]"]
  have u1: "configure_pools_for_numa_node ?mk sample_manager 0
       ([pool_config 256 1 16 0] @ pool_config 256 9 0 0 # [pool_config 2048 1 0 0])
       = configure_pools_for_numa_node ?mk sample_manager 0
           ([pool_config 256 1 16 0] @ [pool_config 2048 1 0 0])"
    and u2: "pool_at (snd (configure_pools_for_numa_node ?mk sample_manager 0
       ([pool_config 256 1 16 0] @ pool_config 256 9 0 0 # [pool_config 2048 1 0 0])))
       (0, buffer_size (pool_config 256 9 0 0)) = Some q"
    using u q unfolding bs2 by blast+
  have d: "configure_pools_for_numa_node ?mk sample_manager 0
     [pool_config 256 1 16 0, pool_config 256 9 0 0, pool_config 2048 1 0 0]
     = configure_pools_for_numa_node ?mk sample_manager 0
         [pool_config 256 1 16 0, pool_config 2048 1 0 0]"
    using u1 by simp
  have e: "map_option initial_pool_count
     (pool_at (snd (configure_pools_for_numa_node ?mk sample_manager 0
        [pool_config 256 1 16 0, pool_config 256 9 0 0, pool_config 2048 1 0 0])) (0, 256))
     = Some 1"
    using u2 q1 unfolding bs2 by simp
  have sc2: "size_classes (snd (configure_pools_for_numa_node ?mk sample_manager 0
     [pool_config 256 1 16 0, pool_config 256 9 0 0, pool_config 2048 1 0 0])) 0
     = {128, 256, 512, 1024, 2048}"
    by code_simp
  show ?thesis
    by (intro conjI) (rule ok cnt a b c sc fresh cnt2 d e sc2)+
qed

end
